theory Spec2Isabelle
  imports Complex_Main "HOL-Library.Word"
begin

section \<open>JavaScript values\<close>

text \<open>
  The exporter of \<^verbatim>\<open>src/tracing/exporters/jaeger.js\<close> handles untyped JavaScript data:
  identifiers, tag values and error fields.  A value is \<^verbatim>\<open>undefined\<close>, \<^verbatim>\<open>null\<close>, a boolean,
  a number, a string or a plain object; a plain object is the list of its own enumerable
  properties in insertion order, which is the order \<^verbatim>\<open>Object.keys\<close> enumerates.
  The exporter does no arithmetic, so a number only has to be compared with zero.
\<close>

datatype jsval =
    JUndef
  | JNull
  | JBool bool
  | JNum rat
  | JStr string
  | JObj "(string \<times> jsval) list"

text \<open>The exceptions the code can raise: all of them are \<^verbatim>\<open>TypeError\<close>s of the runtime.\<close>

datatype error = TypeError

text \<open>\<^verbatim>\<open>if (v)\<close>: the falsy values are undefined, null, false, 0 and the empty string.\<close>

fun truthy :: "jsval \<Rightarrow> bool" where
  "truthy JUndef = False"
| "truthy JNull = False"
| "truthy (JBool b) = b"
| "truthy (JNum q) = (q \<noteq> 0)"
| "truthy (JStr s) = (s \<noteq> [])"
| "truthy (JObj fs) = True"

text \<open>\<^verbatim>\<open>typeof v == "object"\<close> holds of objects and, as the language has it, of null.\<close>

fun typeof_object :: "jsval \<Rightarrow> bool" where
  "typeof_object JNull = True"
| "typeof_object (JObj fs) = True"
| "typeof_object v = False"

section \<open>Identifier conversion\<close>

type_synonym byte = "8 word"

definition hex_digit :: "char \<Rightarrow> nat option" where
  "hex_digit c =
     (let n = of_char c :: nat in
      if 48 \<le> n \<and> n \<le> 57 then Some (n - 48)
      else if 97 \<le> n \<and> n \<le> 102 then Some (n - 87)
      else if 65 \<le> n \<and> n \<le> 70 then Some (n - 55)
      else None)"

definition hex_byte :: "nat \<Rightarrow> nat \<Rightarrow> byte" where
  "hex_byte h l = word_of_nat (16 * h + l)"

text \<open>
  \<^verbatim>\<open>Buffer.from(s, "hex")\<close> of the runtime: two characters make one byte, the first one the
  high nibble; decoding stops at the first pair that is not two hexadecimal digits, and a
  trailing single character is dropped.
\<close>

fun hex_decode :: "string \<Rightarrow> byte list" where
  "hex_decode (a # b # rest) =
     (case (hex_digit a, hex_digit b) of
        (Some h, Some l) \<Rightarrow> hex_byte h l # hex_decode rest
      | _ \<Rightarrow> [])"
| "hex_decode _ = []"

text \<open>\<^verbatim>\<open>id.replace(/-/g, "")\<close>\<close>

definition strip_hyphens :: "string \<Rightarrow> string" where
  "strip_hyphens s = filter (\<lambda>c. c \<noteq> CHR ''-'') s"

text \<open>
  \<^verbatim>\<open>convertID(id)\<close>, lines 222-228.  The result is a buffer or null (\<open>None\<close>).  A truthy
  identifier that is not a string has no \<^verbatim>\<open>replace\<close> method: the call raises.
  \<^verbatim>\<open>substring(0, 16)\<close> is the first 16 characters, or the whole string when it is shorter.
  The strings here are strings of 8-bit characters: an identifier with a character above
  \<^verbatim>\<open>U+00FF\<close>, which the decoder of the runtime reads by its low byte, cannot be written.
\<close>

fun convertID :: "jsval \<Rightarrow> error + byte list option" where
  "convertID i =
     (if truthy i then
        (case i of
           JStr s \<Rightarrow> Inr (Some (hex_decode (take 16 (strip_hyphens s))))
         | _ \<Rightarrow> Inl TypeError)
      else Inr None)"

text \<open>The number a hexadecimal string writes, and the number a byte sequence holds big-endian.\<close>

definition hex_value :: "string \<Rightarrow> nat" where
  "hex_value s = foldl (\<lambda>acc c. 16 * acc + (case hex_digit c of Some d \<Rightarrow> d | None \<Rightarrow> 0)) 0 s"

definition be_value :: "byte list \<Rightarrow> nat" where
  "be_value bs = foldl (\<lambda>acc b. 256 * acc + unat b) 0 bs"

definition is_hex :: "string \<Rightarrow> bool" where
  "is_hex s = list_all (\<lambda>c. hex_digit c \<noteq> None) s"

section \<open>Objects\<close>

type_synonym fields = "(string \<times> jsval) list"

text \<open>\<^verbatim>\<open>o[k]\<close> on the own properties of a plain object: a missing property reads as undefined.\<close>

definition lookup :: "fields \<Rightarrow> string \<Rightarrow> jsval" where
  "lookup fs k = (case map_of fs k of Some v \<Rightarrow> v | None \<Rightarrow> JUndef)"

definition has_key :: "fields \<Rightarrow> string \<Rightarrow> bool" where
  "has_key fs k = (k \<in> set (map fst fs))"

text \<open>
  \<^verbatim>\<open>o[k] = v\<close>: an existing property keeps its place in the enumeration order, a new one
  goes to the end.
\<close>

fun assign :: "fields \<Rightarrow> string \<Rightarrow> jsval \<Rightarrow> fields" where
  "assign [] k v = [(k, v)]"
| "assign ((k', v') # fs) k v = (if k' = k then (k, v) # fs else (k', v') # assign fs k v)"

text \<open>
  \<^verbatim>\<open>v.k\<close> for the option names the exporter reads: reading a property of undefined or null
  raises; a primitive has no such property.
\<close>

fun get_prop :: "jsval \<Rightarrow> string \<Rightarrow> error + jsval" where
  "get_prop JUndef k = Inl TypeError"
| "get_prop JNull k = Inl TypeError"
| "get_prop (JObj fs) k = Inr (lookup fs k)"
| "get_prop v k = Inr JUndef"

text \<open>Sequencing of calls that may raise: the first exception ends the computation.\<close>

definition and_then :: "error + 'a \<Rightarrow> ('a \<Rightarrow> error + 'b) \<Rightarrow> error + 'b" where
  "and_then r f = (case r of Inl e \<Rightarrow> Inl e | Inr x \<Rightarrow> f x)"

section \<open>The merge of defaults (lodash)\<close>

text \<open>
  \<^verbatim>\<open>_.defaultsDeep(object, ...sources)\<close> of the lodash library, which the exporter calls at
  lines 39 and 168: the sources are applied from left to right, and a property of a source
  is assigned to the destination only where the destination's property resolves to
  undefined; where both values are objects the source is merged into the destination's
  object recursively, in place.  An object of a source that fills a gap is cloned, so the
  sources are never changed.  When the source value is undefined and the destination has no
  such key, the key is created with the value undefined.

  The model covers plain data: property names that are members of \<^verbatim>\<open>Object.prototype\<close> and
  sources that are strings are outside of it.
\<close>

fun merge_fields :: "fields \<Rightarrow> fields \<Rightarrow> fields"
  and merge_entry :: "fields \<Rightarrow> string \<Rightarrow> jsval \<Rightarrow> fields" where
  "merge_fields d [] = d"
| "merge_fields d ((k, sv) # rest) = merge_fields (merge_entry d k sv) rest"
| "merge_entry d k (JObj sfs) =
     (case lookup d k of
        JObj ofs \<Rightarrow> assign d k (JObj (merge_fields ofs sfs))
      | JUndef \<Rightarrow> assign d k (JObj (merge_fields [] sfs))
      | _ \<Rightarrow> d)"
| "merge_entry d k JUndef = (if has_key d k then d else assign d k JUndef)"
| "merge_entry d k sv = (if lookup d k = JUndef then assign d k sv else d)"

definition merge_source :: "fields \<Rightarrow> jsval \<Rightarrow> fields" where
  "merge_source d src = (case src of JObj sfs \<Rightarrow> merge_fields d sfs | _ \<Rightarrow> d)"

definition defaultsDeep :: "fields \<Rightarrow> jsval list \<Rightarrow> fields" where
  "defaultsDeep d sources = foldl merge_source d sources"

section \<open>Flattening of tags\<close>

text \<open>
  Modelled from the spec: \<^verbatim>\<open>flattenTags\<close> is a method of the base exporter
  (\<^verbatim>\<open>src/tracing/exporters/base.js\<close>), which is not among the sources.  The specification
  (section 4.3): for a scalar value, emit one entry keyed by the current dotted path; for a
  nested mapping, recurse into each key, appending \<^verbatim>\<open>.<key>\<close> to the path, and emit all
  leaves.  The result is a mapping, so a later leaf with the path of an earlier one
  replaces it.
\<close>

fun flatten_leaves :: "string option \<Rightarrow> jsval \<Rightarrow> fields" where
  "flatten_leaves p (JObj fs) =
     concat (map (\<lambda>(k, x). flatten_leaves (Some (case p of None \<Rightarrow> k | Some q \<Rightarrow> q @ ''.'' @ k)) x) fs)"
| "flatten_leaves p v = [(case p of None \<Rightarrow> [] | Some q \<Rightarrow> q, v)]"

definition flattenTags :: "jsval \<Rightarrow> fields" where
  "flattenTags v = foldl (\<lambda>acc (k, x). assign acc k x) [] (flatten_leaves None v)"

section \<open>Samplers, reporters and tracers\<close>

text \<open>
  The objects of the Jaeger client are given by the constructor call that makes them: the
  exporter only builds them and hands them on.  The constructors are taken to return.  Those
  of the client library that check their arguments (a sampling rate outside of the unit
  interval, a negative rate limit) raise instead, which is not shown here: nothing below
  says that a sampler other than the constant one is built, except for the two
  configurations of claims C3 and C6.
\<close>

datatype sampler =
    CustomSampler nat
  | RateLimitingSampler jsval jsval
  | ProbabilisticSampler jsval
  | GuaranteedThroughputSampler jsval jsval
  | RemoteControlledSampler jsval jsval
  | ConstSampler jsval

text \<open>
  \<^verbatim>\<open>opts.sampler\<close> is a function, which then is the sampler, or a configuration value
  read as \<^verbatim>\<open>{type, options}\<close>.
\<close>

datatype sampler_opt = SamplerFunction nat | SamplerConfig jsval

record reporter =
  udp_host :: jsval
  udp_port :: jsval

record tracer =
  tracer_serviceName :: jsval
  tracer_reporter :: reporter
  tracer_sampler :: sampler
  tracer_options :: jsval

text \<open>
  The exporter instance.  \<^verbatim>\<open>this.tracers\<close> is a plain object from property names to
  tracers; a tracer is an object on the heap and is known by its reference, the index
  at which it was allocated.
\<close>

record exporter =
  opt_host :: jsval
  opt_port :: jsval
  opt_sampler :: sampler_opt
  opt_tracerOptions :: jsval
  defaultTags :: jsval
  tracers :: "(string \<times> nat) list"
  heap :: "tracer list"

text \<open>
  The exporter that the constructor (lines 39-62) makes from no options: the defaults, and
  \<^verbatim>\<open>this.tracers = {}\<close>.  \<^verbatim>\<open>this.defaultTags\<close> is not assigned before \<^verbatim>\<open>init\<close>.
\<close>

definition default_sampler :: sampler_opt where
  "default_sampler = SamplerConfig (JObj [(''type'', JStr ''Const''), (''options'', JObj [])])"

definition new_exporter :: exporter where
  "new_exporter =
     \<lparr>opt_host = JStr ''127.0.0.1'', opt_port = JNum 6832, opt_sampler = default_sampler,
      opt_tracerOptions = JObj [], defaultTags = JUndef, tracers = [], heap = []\<rparr>"

text \<open>
  \<^verbatim>\<open>init(tracer)\<close>, lines 71-78; the argument is \<^verbatim>\<open>opts.defaultTags\<close>, or what it returns when it
  is a function.
\<close>

definition init :: "exporter \<Rightarrow> jsval \<Rightarrow> exporter" where
  "init ex dt = ex\<lparr>defaultTags := (if truthy dt then JObj (flattenTags dt) else dt)\<rparr>"

text \<open>\<^verbatim>\<open>getReporter()\<close>, lines 84-86.\<close>

definition getReporter :: "exporter \<Rightarrow> reporter" where
  "getReporter ex = \<lparr>udp_host = opt_host ex, udp_port = opt_port ex\<rparr>"

text \<open>
  \<^verbatim>\<open>getSampler(serviceName)\<close>, lines 92-109.  \<^verbatim>\<open>type == "..."\<close> holds of a plain value only
  when it is that string; \<^verbatim>\<open>decision != null\<close> fails for null and undefined.
\<close>

definition getSampler :: "exporter \<Rightarrow> jsval \<Rightarrow> error + sampler" where
  "getSampler ex serviceName =
     (case opt_sampler ex of
        SamplerFunction f \<Rightarrow> Inr (CustomSampler f)
      | SamplerConfig cfg \<Rightarrow>
          and_then (get_prop cfg ''type'') (\<lambda>ty.
            if ty = JStr ''RateLimiting'' then
              and_then (get_prop cfg ''options'') (\<lambda>options.
              and_then (get_prop options ''maxTracesPerSecond'') (\<lambda>a.
              and_then (get_prop options ''initBalance'') (\<lambda>b.
                Inr (RateLimitingSampler a b))))
            else if ty = JStr ''Probabilistic'' then
              and_then (get_prop cfg ''options'') (\<lambda>options.
              and_then (get_prop options ''samplingRate'') (\<lambda>a.
                Inr (ProbabilisticSampler a)))
            else if ty = JStr ''GuaranteedThroughput'' then
              and_then (get_prop cfg ''options'') (\<lambda>options.
              and_then (get_prop options ''lowerBound'') (\<lambda>a.
              and_then (get_prop options ''samplingRate'') (\<lambda>b.
                Inr (GuaranteedThroughputSampler a b))))
            else if ty = JStr ''RemoteControlled'' then
              and_then (get_prop cfg ''options'') (\<lambda>options.
                Inr (RemoteControlledSampler serviceName options))
            else
              and_then (get_prop cfg ''options'') (\<lambda>options.
                if truthy options then
                  and_then (get_prop options ''decision'') (\<lambda>d.
                    Inr (ConstSampler (if d \<noteq> JNull \<and> d \<noteq> JUndef then d else JNum 1)))
                else Inr (ConstSampler (JNum 1)))))"

text \<open>
  A service name is a string, or null when the span has no service.  As a property name
  null reads \<^verbatim>\<open>"null"\<close>.
\<close>

definition name_value :: "string option \<Rightarrow> jsval" where
  "name_value n = (case n of None \<Rightarrow> JNull | Some s \<Rightarrow> JStr s)"

definition property_key :: "string option \<Rightarrow> string" where
  "property_key n = (case n of None \<Rightarrow> ''null'' | Some s \<Rightarrow> s)"

text \<open>
  \<^verbatim>\<open>this.tracers\<close> is created by the literal \<^verbatim>\<open>{}\<close> and so inherits the members of
  \<^verbatim>\<open>Object.prototype\<close>: reading one of these names finds the inherited member, which is
  truthy, when the object has no own property of the name.
\<close>

definition object_prototype_keys :: "string list" where
  "object_prototype_keys =
     [''constructor'', ''__defineGetter__'', ''__defineSetter__'', ''hasOwnProperty'',
      ''__lookupGetter__'', ''__lookupSetter__'', ''isPrototypeOf'', ''propertyIsEnumerable'',
      ''toString'', ''valueOf'', ''__proto__'', ''toLocaleString'']"

datatype tracer_value = TracerRef nat | Inherited string

text \<open>\<^verbatim>\<open>this.tracers[key]\<close>; \<open>None\<close> is undefined.\<close>

definition tracers_get :: "exporter \<Rightarrow> string \<Rightarrow> tracer_value option" where
  "tracers_get ex key =
     (case map_of (tracers ex) key of
        Some r \<Rightarrow> Some (TracerRef r)
      | None \<Rightarrow> if key \<in> set object_prototype_keys then Some (Inherited key) else None)"

text \<open>
  \<^verbatim>\<open>this.tracers[serviceName] = tracer\<close> for a tracer that \<^verbatim>\<open>new Jaeger.Tracer(...)\<close> has
  just allocated.
\<close>

definition store_tracer :: "exporter \<Rightarrow> string \<Rightarrow> tracer \<Rightarrow> exporter" where
  "store_tracer ex key t =
     ex\<lparr>tracers := tracers ex @ [(key, length (heap ex))], heap := heap ex @ [t]\<rparr>"

text \<open>
  \<^verbatim>\<open>getTracer(serviceName)\<close>, lines 117-128.  What line 118 finds is an object or a
  function and hence truthy.  Line 121 calls \<^verbatim>\<open>this.getSampler()\<close> without an argument: its
  parameter is undefined.
\<close>

definition getTracer :: "exporter \<Rightarrow> string option \<Rightarrow> error + exporter \<times> tracer_value" where
  "getTracer ex serviceName =
     (case tracers_get ex (property_key serviceName) of
        Some v \<Rightarrow> Inr (ex, v)
      | None \<Rightarrow>
          and_then (getSampler ex JUndef) (\<lambda>sampler.
            let reporter = getReporter ex;
                t = \<lparr>tracer_serviceName = name_value serviceName, tracer_reporter = reporter,
                     tracer_sampler = sampler, tracer_options = opt_tracerOptions ex\<rparr>
            in Inr (store_tracer ex (property_key serviceName) t, TracerRef (length (heap ex)))))"

section \<open>Spans\<close>

text \<open>
  The finished span of the internal tracer.  Its service is absent or a descriptor object
  \<^verbatim>\<open>{name, ...}\<close> whose name is a string.  Every other field is an arbitrary value; a
  field that an object lacks is undefined.
\<close>

record service =
  svc_name :: string
  svc_props :: fields

record span_error =
  err_name :: jsval
  err_message :: jsval
  err_type :: jsval
  err_code :: jsval
  err_data :: jsval
  err_stack :: jsval

record span =
  span_id :: jsval
  traceID :: jsval
  parentID :: jsval
  span_name :: jsval
  service :: "service option"
  tags :: jsval
  startTime :: jsval
  endTime :: jsval
  span_error :: "span_error option"

text \<open>The descriptor as the object it is, and \<^verbatim>\<open>span.service\<close> as a value.\<close>

definition service_object :: "service \<Rightarrow> jsval" where
  "service_object svc = JObj ((''name'', JStr (svc_name svc)) # svc_props svc)"

definition service_value :: "service option \<Rightarrow> jsval" where
  "service_value s = (case s of None \<Rightarrow> JUndef | Some svc \<Rightarrow> service_object svc)"

text \<open>
  The destination \<^verbatim>\<open>{service: span.service}\<close> of the merge at line 168 holds a reference
  to the descriptor of the span, not a copy, and the merge works on the objects of the
  destination in place: what the merge leaves under \<^verbatim>\<open>service\<close> is the descriptor the span
  has afterwards.
\<close>

definition service_after :: "service option \<Rightarrow> fields \<Rightarrow> service option" where
  "service_after s merged =
     (case s of
        None \<Rightarrow> None
      | Some svc \<Rightarrow>
          (case lookup merged ''service'' of
             JObj ((n, JStr nm) # ps) \<Rightarrow> Some \<lparr>svc_name = nm, svc_props = ps\<rparr>
           | _ \<Rightarrow> Some svc))"

section \<open>Backend spans\<close>

text \<open>
  \<^verbatim>\<open>new Jaeger.SpanContext(traceId, spanId, parentId, traceIdStr, spanIdStr, parentIdStr,
  flags, baggage, debugId)\<close>: the nine arguments.
\<close>

record span_context =
  sc_traceId :: "byte list option"
  sc_spanId :: "byte list option"
  sc_parentId :: "byte list option"
  sc_traceIdStr :: "string option"
  sc_spanIdStr :: "string option"
  sc_parentIdStr :: "string option"
  sc_flags :: nat
  sc_baggage :: fields
  sc_debugId :: string

text \<open>
  The value of a tag is a value of the span or of the exporter, or the string that
  \<^verbatim>\<open>toString()\<close> makes of a number, whose digits are not spelled out here.
\<close>

datatype tag_value = Val jsval | NumberString rat

type_synonym tag_list = "(string \<times> tag_value) list"

definition as_tags :: "fields \<Rightarrow> tag_list" where
  "as_tags fs = map (\<lambda>(k, v). (k, Val v)) fs"

text \<open>
  The span of the backend, as the exporter's calls leave it: the arguments of
  \<^verbatim>\<open>startSpan\<close>, the tags in the order in which they were set (the tags of the options
  first, then one entry for each \<^verbatim>\<open>setTag\<close>), its context, and the time it was finished
  with.
\<close>

record jaeger_span =
  js_tracer :: nat
  operationName :: jsval
  js_startTime :: jsval
  childOf :: "span_context option"
  js_tags :: tag_list
  js_context :: span_context
  finished :: "jsval option"

text \<open>
  \<^verbatim>\<open>tracer.startSpan(name, {startTime, childOf, tags})\<close>; the context of the new span,
  with the identifiers the backend generates for it, is a parameter.
\<close>

definition startSpan ::
  "nat \<Rightarrow> span_context \<Rightarrow> jsval \<Rightarrow> jsval \<Rightarrow> span_context option \<Rightarrow> fields \<Rightarrow> jaeger_span" where
  "startSpan r ctx0 nm st parent tgs =
     \<lparr>js_tracer = r, operationName = nm, js_startTime = st, childOf = parent,
      js_tags = as_tags tgs, js_context = ctx0, finished = None\<rparr>"

definition setTag :: "jaeger_span \<Rightarrow> string \<Rightarrow> jsval \<Rightarrow> jaeger_span" where
  "setTag js k v = js\<lparr>js_tags := js_tags js @ [(k, Val v)]\<rparr>"

text \<open>\<^verbatim>\<open>prefix ? `${prefix}.${key}` : key\<close>: an empty prefix is falsy, as an absent one is.\<close>

definition tag_name :: "string option \<Rightarrow> string \<Rightarrow> string" where
  "tag_name prefix key =
     (case prefix of
        None \<Rightarrow> key
      | Some p \<Rightarrow> if p \<noteq> [] then p @ ''.'' @ key else key)"

text \<open>
  \<^verbatim>\<open>addTags(span, key, value, prefix)\<close>, lines 207-214.  \<^verbatim>\<open>typeof null\<close> is
  \<^verbatim>\<open>"object"\<close>, and \<^verbatim>\<open>Object.keys(null)\<close> raises.
\<close>

fun addTags :: "jaeger_span \<Rightarrow> string \<Rightarrow> jsval \<Rightarrow> string option \<Rightarrow> error + jaeger_span"
  and addTags_each :: "jaeger_span \<Rightarrow> fields \<Rightarrow> string \<Rightarrow> error + jaeger_span" where
  "addTags js key JNull prefix = Inl TypeError"
| "addTags js key (JObj fs) prefix = addTags_each js fs (tag_name prefix key)"
| "addTags js key v prefix = Inr (setTag js (tag_name prefix key) v)"
| "addTags_each js [] nm = Inr js"
| "addTags_each js ((k, v) # rest) nm =
     (case addTags js k v (Some nm) of
        Inl e \<Rightarrow> Inl e
      | Inr js' \<Rightarrow> addTags_each js' rest nm)"

text \<open>
  \<^verbatim>\<open>v.toString()\<close> on plain data: undefined and null have no method; a mapping inherits
  the method of \<^verbatim>\<open>Object.prototype\<close> unless it has an entry of that name, which is data
  and cannot be called.
\<close>

fun toString :: "jsval \<Rightarrow> error + tag_value" where
  "toString JUndef = Inl TypeError"
| "toString JNull = Inl TypeError"
| "toString (JBool b) = Inr (Val (JStr (if b then ''true'' else ''false'')))"
| "toString (JNum q) = Inr (NumberString q)"
| "toString (JStr s) = Inr (Val (JStr s))"
| "toString (JObj fs) =
     (if has_key fs ''toString'' then Inl TypeError else Inr (Val (JStr ''[object Object]'')))"

text \<open>
  Lines 180-192, for a span that has an error.  The last call of \<^verbatim>\<open>addTags\<close> has a string
  for its value, for which \<^verbatim>\<open>addTags\<close> sets the one tag \<^verbatim>\<open>error.stack\<close>.
\<close>

definition addErrorTags :: "jaeger_span \<Rightarrow> span_error \<Rightarrow> error + jaeger_span" where
  "addErrorTags js e =
     and_then (addTags js ''error'' (JBool True) None) (\<lambda>j1.
     and_then (addTags j1 ''error.name'' (err_name e) None) (\<lambda>j2.
     and_then (addTags j2 ''error.message'' (err_message e) None) (\<lambda>j3.
     and_then (addTags j3 ''error.type'' (err_type e) None) (\<lambda>j4.
     and_then (addTags j4 ''error.code'' (err_code e) None) (\<lambda>j5.
     and_then (if truthy (err_data e) then addTags j5 ''error.data'' (err_data e) None
               else Inr j5) (\<lambda>j6.
       if truthy (err_stack e) then
         and_then (toString (err_stack e)) (\<lambda>st.
           Inr (j6\<lparr>js_tags := js_tags j6 @ [(tag_name None ''error.stack'', st)]\<rparr>))
       else Inr j6))))))"

text \<open>Lines 150-163: the context of the parent, when the span has one.\<close>

definition parent_context :: "span \<Rightarrow> error + span_context option" where
  "parent_context sp =
     (if truthy (parentID sp) then
        and_then (convertID (traceID sp)) (\<lambda>t.
        and_then (convertID (parentID sp)) (\<lambda>p.
          Inr (Some \<lparr>sc_traceId = t, sc_spanId = p, sc_parentId = None,
                     sc_traceIdStr = None, sc_spanIdStr = None, sc_parentIdStr = None,
                     sc_flags = 1, sc_baggage = [], sc_debugId = []\<rparr>)))
      else Inr None)"

text \<open>Lines 168-170: the argument of \<^verbatim>\<open>flattenTags\<close>.\<close>

definition merged_tags :: "exporter \<Rightarrow> span \<Rightarrow> fields" where
  "merged_tags ex sp =
     defaultsDeep [(''service'', service_value (service sp))] [tags sp, defaultTags ex]"

text \<open>
  \<^verbatim>\<open>generateJaegerSpan(span)\<close>, lines 146-197.  The result is the exporter, the span and
  the backend span as the call leaves them, or the exception it raises.  A value that is
  not a tracer (an inherited member found by \<^verbatim>\<open>getTracer\<close>) has no \<^verbatim>\<open>startSpan\<close> method.
\<close>

definition generateJaegerSpan ::
  "exporter \<Rightarrow> span_context \<Rightarrow> span \<Rightarrow> error + exporter \<times> span \<times> jaeger_span" where
  "generateJaegerSpan ex ctx0 sp =
     (let serviceName = (case service sp of None \<Rightarrow> None | Some svc \<Rightarrow> Some (svc_name svc)) in
      and_then (getTracer ex serviceName) (\<lambda>(ex1, tv).
      and_then (parent_context sp) (\<lambda>parentCtx.
        let merged = merged_tags ex1 sp;
            sp1 = sp\<lparr>service := service_after (service sp) merged\<rparr>
        in case tv of
             Inherited k \<Rightarrow> Inl TypeError
           | TracerRef r \<Rightarrow>
               let js0 = startSpan r ctx0 (span_name sp) (startTime sp) parentCtx
                           (flattenTags (JObj merged))
               in
               and_then (addTags js0 ''service'' (name_value serviceName) None) (\<lambda>js1.
               and_then (addTags js1 ''span.kind'' (JStr ''server'') None) (\<lambda>js2.
               and_then (convertID (traceID sp)) (\<lambda>t.
               and_then (convertID (span_id sp)) (\<lambda>i.
                 let js3 = js2\<lparr>js_context := (js_context js2)\<lparr>sc_traceId := t, sc_spanId := i\<rparr>\<rparr> in
                 and_then (case span_error sp of
                             None \<Rightarrow> Inr js3
                           | Some e \<Rightarrow> addErrorTags js3 e) (\<lambda>js4.
                   Inr (ex1, sp1, js4\<lparr>finished := Some (endTime sp)\<rparr>)))))))))"

text \<open>\<^verbatim>\<open>finishSpan(span)\<close>, lines 136-138, drops the backend span.\<close>

definition finishSpan :: "exporter \<Rightarrow> span_context \<Rightarrow> span \<Rightarrow> error + exporter \<times> span" where
  "finishSpan ex ctx0 sp =
     and_then (generateJaegerSpan ex ctx0 sp) (\<lambda>(ex1, sp1, js). Inr (ex1, sp1))"

section \<open>The registry of tracers\<close>

text \<open>
  What holds of \<^verbatim>\<open>this.tracers\<close> in every state the exporter reaches: the references it
  stores are allocated, and no two property names store the same one.
\<close>

definition tracers_wf :: "exporter \<Rightarrow> bool" where
  "tracers_wf ex =
     (distinct (map snd (tracers ex)) \<and> list_all (\<lambda>(k, r). r < length (heap ex)) (tracers ex))"

text \<open>The sampler types that \<^verbatim>\<open>getSampler\<close> knows by name.\<close>

definition known_sampler_types :: "string list" where
  "known_sampler_types = [''RateLimiting'', ''Probabilistic'', ''GuaranteedThroughput'', ''RemoteControlled'']"

text \<open>No decision is configured: the options are no object, or have none that is not null.\<close>

definition no_decision :: "jsval \<Rightarrow> bool" where
  "no_decision options =
     (case options of
        JObj os \<Rightarrow> lookup os ''decision'' = JUndef \<or> lookup os ''decision'' = JNull
      | _ \<Rightarrow> True)"

section \<open>Plain data without null\<close>

text \<open>A value that is not null and holds no null at any depth.\<close>

fun null_free :: "jsval \<Rightarrow> bool"
  and null_free_fields :: "fields \<Rightarrow> bool" where
  "null_free JNull = False"
| "null_free (JObj fs) = null_free_fields fs"
| "null_free v = True"
| "null_free_fields [] = True"
| "null_free_fields ((k, v) # rest) = (null_free v \<and> null_free_fields rest)"

section \<open>Sample inputs\<close>

text \<open>A span of the service \<^verbatim>\<open>posts\<close> with one tag, no parent and no error.\<close>

definition sample_span :: span where
  "sample_span =
     \<lparr>span_id = JStr ''abcdef12-3456-7890-abcd-ef1234567890'',
      traceID = JStr ''0a0b0c0d-0102-0304-0506-070809101112'',
      parentID = JUndef, span_name = JStr ''posts.find'',
      service = Some \<lparr>svc_name = ''posts'', svc_props = []\<rparr>,
      tags = JObj [(''x'', JNum 1)], startTime = JNum 1000, endTime = JNum 1020,
      span_error = None\<rparr>"

text \<open>The same span as the child of another one.\<close>

definition child_span :: span where
  "child_span = sample_span\<lparr>parentID := JStr ''11223344-5566-7788-99aa-bbccddeeff00''\<rparr>"

text \<open>The error \<^verbatim>\<open>{name: "E", message: "boom", type: "T", code: 500}\<close>.\<close>

definition sample_error :: span_error where
  "sample_error =
     \<lparr>err_name = JStr ''E'', err_message = JStr ''boom'', err_type = JStr ''T'',
      err_code = JNum 500, err_data = JUndef, err_stack = JUndef\<rparr>"

text \<open>A span with a nested tag, and an exporter whose default tags are nested too.\<close>

definition nested_span :: span where
  "nested_span = sample_span\<lparr>tags := JObj [(''x'', JNum 1), (''a'', JObj [(''b'', JNum 1)])]\<rparr>"

definition nested_exporter :: exporter where
  "nested_exporter =
     new_exporter\<lparr>defaultTags :=
       JObj [(''x'', JNum 2), (''y'', JNum 3), (''a'', JObj [(''b'', JNum 2), (''c'', JNum 2)])]\<rparr>"

text \<open>A context as the backend may generate it for a new span.\<close>

definition sample_context :: span_context where
  "sample_context =
     \<lparr>sc_traceId = Some [1, 2, 3, 4, 5, 6, 7, 8], sc_spanId = Some [8, 7, 6, 5, 4, 3, 2, 1],
      sc_parentId = None, sc_traceIdStr = None, sc_spanIdStr = None, sc_parentIdStr = None,
      sc_flags = 1, sc_baggage = [], sc_debugId = []\<rparr>"

text \<open>What a conversion returns, when it returns: the tags of the backend span, and the span.\<close>

definition result_tags :: "error + exporter \<times> span \<times> jaeger_span \<Rightarrow> tag_list option" where
  "result_tags r = (case r of Inl e \<Rightarrow> None | Inr (ex, sp, js) \<Rightarrow> Some (js_tags js))"

definition result_span :: "error + exporter \<times> span \<times> jaeger_span \<Rightarrow> span option" where
  "result_span r = (case r of Inl e \<Rightarrow> None | Inr (ex, sp, js) \<Rightarrow> Some sp)"

section \<open>Rendering of errors\<close>

text \<open>
  The tags that lines 181-191 set for an error: the five fixed ones, each value flattened
  under its key, then those of the data when it is truthy, then the stringified stack when
  the stack is truthy.
\<close>

definition error_tags :: "span_error \<Rightarrow> tag_list" where
  "error_tags e =
     as_tags
       ([(''error'', JBool True)]
        @ flatten_leaves (Some ''error.name'') (err_name e)
        @ flatten_leaves (Some ''error.message'') (err_message e)
        @ flatten_leaves (Some ''error.type'') (err_type e)
        @ flatten_leaves (Some ''error.code'') (err_code e)
        @ (if truthy (err_data e) then flatten_leaves (Some ''error.data'') (err_data e) else []))
     @ (if truthy (err_stack e) then
          (case toString (err_stack e) of Inr st \<Rightarrow> [(''error.stack'', st)] | Inl x \<Rightarrow> [])
        else [])"

text \<open>
  The fields of the error hold no null (a falsy data is not looked at), and a truthy stack
  has a \<^verbatim>\<open>toString\<close> method.
\<close>

definition error_renders :: "span_error \<Rightarrow> bool" where
  "error_renders e =
     (null_free (err_name e) \<and> null_free (err_message e) \<and> null_free (err_type e)
      \<and> null_free (err_code e) \<and> (truthy (err_data e) \<longrightarrow> null_free (err_data e))
      \<and> (truthy (err_stack e) \<longrightarrow> toString (err_stack e) \<noteq> Inl TypeError))"

section \<open>The backend span of a conversion\<close>

text \<open>
  The backend span that \<^verbatim>\<open>generateJaegerSpan\<close> returns when nothing raises, for the tracer
  \<open>r\<close> of the service named \<open>nm\<close>, the parent context \<open>pc\<close> and the converted
  identifiers \<open>t\<close> and \<open>i\<close>.
\<close>

definition backend_span ::
  "nat \<Rightarrow> span_context \<Rightarrow> span \<Rightarrow> exporter \<Rightarrow> string \<Rightarrow> span_context option \<Rightarrow>
   byte list option \<Rightarrow> byte list option \<Rightarrow> jaeger_span" where
  "backend_span r ctx0 sp ex1 nm pc t i =
     \<lparr>js_tracer = r, operationName = span_name sp, js_startTime = startTime sp, childOf = pc,
      js_tags = as_tags (flattenTags (JObj (merged_tags ex1 sp))
                         @ [(''service'', JStr nm), (''span.kind'', JStr ''server'')])
                @ (case span_error sp of None \<Rightarrow> [] | Some e \<Rightarrow> error_tags e),
      js_context = ctx0\<lparr>sc_traceId := t, sc_spanId := i\<rparr>,
      finished = Some (endTime sp)\<rparr>"

section \<open>Values that the merge keeps\<close>

text \<open>
  A value that is neither undefined nor a mapping: the merge of defaults never replaces
  it, and assigns it as it is where the destination has a gap.
\<close>

definition scalar_defined :: "jsval \<Rightarrow> bool" where
  "scalar_defined v = (case v of JUndef \<Rightarrow> False | JObj fs \<Rightarrow> False | _ \<Rightarrow> True)"

section \<open>Leaves of nested mappings\<close>

text \<open>The value at a path of keys; undefined where the path leaves the mappings.\<close>

fun get_path :: "jsval \<Rightarrow> string list \<Rightarrow> jsval" where
  "get_path v [] = v"
| "get_path (JObj fs) (k # p) = get_path (lookup fs k) p"
| "get_path v (k # p) = JUndef"

text \<open>
  A value has a gap at a path: following the path one arrives at undefined, at the end of
  the path or before it, without meeting a scalar on the way.
\<close>

fun gap :: "jsval \<Rightarrow> string list \<Rightarrow> bool" where
  "gap v [] = (v = JUndef)"
| "gap (JObj fs) (k # p) = gap (lookup fs k) p"
| "gap JUndef (k # p) = True"
| "gap v (k # p) = False"

text \<open>
  The same of every entry of a name, for a list of entries in which a name may occur more
  than once; for the entries of an object it is the gap.
\<close>

fun absent :: "jsval \<Rightarrow> string list \<Rightarrow> bool"
  and absent_fields :: "fields \<Rightarrow> string \<Rightarrow> string list \<Rightarrow> bool" where
  "absent v [] = (v = JUndef)"
| "absent (JObj fs) (k # p) = absent_fields fs k p"
| "absent JUndef (k # p) = True"
| "absent v (k # p) = False"
| "absent_fields [] k p = True"
| "absent_fields ((k', v) # rest) k p = ((k' \<noteq> k \<or> absent v p) \<and> absent_fields rest k p)"

text \<open>No key of the path is the name of a member that objects inherit.\<close>

definition own_path :: "string list \<Rightarrow> bool" where
  "own_path p = list_all (\<lambda>k. k \<notin> set object_prototype_keys) p"

section \<open>Identifier conversion: properties\<close>

lemma hex_digit_less: "hex_digit c = Some d \<Longrightarrow> d < 16"
  by (auto simp: hex_digit_def Let_def split: if_splits)

lemma hex_decode_length: "is_hex s \<Longrightarrow> length (hex_decode s) = length s div 2"
  by (induction s rule: hex_decode.induct) (auto simp: is_hex_def)

lemma unat_hex_byte:
  assumes "h < 16" "l < 16"
  shows "unat (hex_byte h l) = 16 * h + l"
proof -
  have "16 * h + l < 256" using assms by simp
  then show ?thesis unfolding hex_byte_def unat_of_nat by simp
qed

lemma foldl_hex_decode:
  "is_hex s \<Longrightarrow> even (length s) \<Longrightarrow>
   foldl (\<lambda>acc b. 256 * acc + unat b) a (hex_decode s)
     = foldl (\<lambda>acc c. 16 * acc + (case hex_digit c of Some d \<Rightarrow> d | None \<Rightarrow> 0)) a s"
proof (induction s arbitrary: a rule: hex_decode.induct)
  case (1 x y rest)
  from "1.prems" obtain h l where hl: "hex_digit x = Some h" "hex_digit y = Some l"
    by (auto simp: is_hex_def)
  have r: "is_hex rest" "even (length rest)" using "1.prems" by (auto simp: is_hex_def)
  have lt: "h < 16" "l < 16" using hl by (auto dest: hex_digit_less)
  show ?case using "1.IH" [OF refl hl r, of "256 * a + (16 * h + l)"] hl
    by (simp add: unat_hex_byte [OF lt] algebra_simps)
qed (auto simp: is_hex_def)

lemma be_value_hex_decode:
  "is_hex s \<Longrightarrow> even (length s) \<Longrightarrow> be_value (hex_decode s) = hex_value s"
  by (simp add: be_value_def hex_value_def foldl_hex_decode)

lemma hex_value_pair:
  "hex_digit a = Some h \<Longrightarrow> hex_digit b = Some l \<Longrightarrow> hex_value [a, b] = 16 * h + l"
  by (simp add: hex_value_def)

lemma hex_decode_prefix:
  "2 * length (hex_decode c) \<le> length c \<and> is_hex (take (2 * length (hex_decode c)) c)"
  by (induction c rule: hex_decode.induct) (auto simp: is_hex_def split: option.splits)

lemma hex_decode_stop:
  "2 * length (hex_decode c) + 2 \<le> length c \<Longrightarrow>
   \<not> is_hex (take 2 (drop (2 * length (hex_decode c)) c))"
  by (induction c rule: hex_decode.induct) (auto simp: is_hex_def split: option.splits)

lemma hex_decode_nth:
  "j < length (hex_decode c) \<Longrightarrow>
   unat (hex_decode c ! j) = hex_value (take 2 (drop (2 * j) c))"
proof (induction c arbitrary: j rule: hex_decode.induct)
  case (1 a b rest)
  from "1.prems" obtain h l where hl: "hex_digit a = Some h" "hex_digit b = Some l"
    by (auto split: option.splits)
  have lt: "h < 16" "l < 16" using hl by (auto dest: hex_digit_less)
  show ?case
  proof (cases j)
    case 0
    then show ?thesis using hl by (simp add: unat_hex_byte [OF lt] hex_value_pair)
  next
    case (Suc i)
    then have "i < length (hex_decode rest)" using "1.prems" hl by simp
    from "1.IH" [OF refl hl this] show ?thesis using Suc hl by simp
  qed
qed simp_all

lemma hex_decode_take:
  "hex_decode (take (2 * length (hex_decode c)) c) = hex_decode c"
  by (induction c rule: hex_decode.induct) (auto split: option.splits)

lemma be_value_hex_decode_prefix:
  "be_value (hex_decode c) = hex_value (take (2 * length (hex_decode c)) c)"
proof -
  let ?p = "take (2 * length (hex_decode c)) c"
  have h: "is_hex ?p" and l: "2 * length (hex_decode c) \<le> length c"
    using hex_decode_prefix [of c] by simp_all
  have e: "even (length ?p)" using l by simp
  from be_value_hex_decode [OF h e] show ?thesis by (simp add: hex_decode_take)
qed

lemma hex_decode_full:
  "length c \<le> 16 \<Longrightarrow> (length (hex_decode c) = 8 \<longleftrightarrow> length c = 16 \<and> is_hex c)"
proof
  assume c: "length c \<le> 16" and 8: "length (hex_decode c) = 8"
  from hex_decode_prefix [of c] 8 c have "length c = 16" "is_hex (take 16 c)" by simp_all
  then show "length c = 16 \<and> is_hex c" by simp
next
  assume "length c \<le> 16" and "length c = 16 \<and> is_hex c"
  then show "length (hex_decode c) = 8" using hex_decode_length [of c] by simp
qed

text \<open>
  Claim C4, amended.  \<^verbatim>\<open>convertID\<close> returns null for every falsy identifier.  For a
  string of 8-bit characters that is not empty it strips the hyphens, takes the first 16
  characters of the result and decodes them pair by pair, the first character of a pair
  the high nibble, up to the end (a trailing single character is dropped) or to the first
  pair that is not two hexadecimal digits:
  each byte is the number its pair writes, the bytes hold big-endian the number that the
  decoded characters write, and decoding stops before the end only at a pair that is not
  hexadecimal.  The result has at most 8 bytes, and exactly 8 if and only if these 16
  characters exist and are hexadecimal digits.  The identifier
  \<^verbatim>\<open>abcdef12-3456-7890-abcd-ef1234567890\<close> gives the bytes of \<^verbatim>\<open>abcdef1234567890\<close>, and null
  gives null.
\<close>

theorem convertID_decoding:
  "(\<not> truthy i \<longrightarrow> convertID i = Inr None)
   \<and> (s \<noteq> [] \<longrightarrow>
        (\<exists>bs. convertID (JStr s) = Inr (Some bs)
           \<and> 2 * length bs \<le> length (take 16 (strip_hyphens s))
           \<and> is_hex (take (2 * length bs) (take 16 (strip_hyphens s)))
           \<and> (\<forall>j < length bs.
                unat (bs ! j) = hex_value (take 2 (drop (2 * j) (take 16 (strip_hyphens s)))))
           \<and> be_value bs = hex_value (take (2 * length bs) (take 16 (strip_hyphens s)))
           \<and> (2 * length bs + 2 \<le> length (take 16 (strip_hyphens s)) \<longrightarrow>
                \<not> is_hex (take 2 (drop (2 * length bs) (take 16 (strip_hyphens s)))))
           \<and> length bs \<le> 8
           \<and> (length bs = 8 \<longleftrightarrow>
                16 \<le> length (strip_hyphens s) \<and> is_hex (take 16 (strip_hyphens s)))))
   \<and> convertID (JStr ''abcdef12-3456-7890-abcd-ef1234567890'')
        = Inr (Some [0xab, 0xcd, 0xef, 0x12, 0x34, 0x56, 0x78, 0x90])
   \<and> convertID JNull = Inr None"
proof (intro conjI impI)
  show "\<not> truthy i \<Longrightarrow> convertID i = Inr None" by simp
next
  assume ne: "s \<noteq> []"
  let ?c = "take 16 (strip_hyphens s)"
  let ?bs = "hex_decode ?c"
  have c16: "length ?c \<le> 16" by simp
  have 1: "convertID (JStr s) = Inr (Some ?bs)" using ne by simp
  have 2: "2 * length ?bs \<le> length ?c" "is_hex (take (2 * length ?bs) ?c)"
    using hex_decode_prefix [of ?c] by blast+
  have 3: "\<forall>j < length ?bs. unat (?bs ! j) = hex_value (take 2 (drop (2 * j) ?c))"
    using hex_decode_nth [of _ ?c] by blast
  have 4: "be_value ?bs = hex_value (take (2 * length ?bs) ?c)"
    by (rule be_value_hex_decode_prefix)
  have 5: "2 * length ?bs + 2 \<le> length ?c \<longrightarrow> \<not> is_hex (take 2 (drop (2 * length ?bs) ?c))"
    using hex_decode_stop [of ?c] by blast
  have 6: "length ?bs \<le> 8" using 2(1) c16 by linarith
  have "length ?c = 16 \<longleftrightarrow> 16 \<le> length (strip_hyphens s)" by auto
  then have 7: "length ?bs = 8 \<longleftrightarrow> 16 \<le> length (strip_hyphens s) \<and> is_hex ?c"
    using hex_decode_full [OF c16] by simp
  from 1 2 3 4 5 6 7
  show "\<exists>bs. convertID (JStr s) = Inr (Some bs)
           \<and> 2 * length bs \<le> length ?c
           \<and> is_hex (take (2 * length bs) ?c)
           \<and> (\<forall>j < length bs. unat (bs ! j) = hex_value (take 2 (drop (2 * j) ?c)))
           \<and> be_value bs = hex_value (take (2 * length bs) ?c)
           \<and> (2 * length bs + 2 \<le> length ?c \<longrightarrow> \<not> is_hex (take 2 (drop (2 * length bs) ?c)))
           \<and> length bs \<le> 8
           \<and> (length bs = 8 \<longleftrightarrow> 16 \<le> length (strip_hyphens s) \<and> is_hex ?c)"
    by blast
next
  show "convertID (JStr ''abcdef12-3456-7890-abcd-ef1234567890'')
        = Inr (Some [0xab, 0xcd, 0xef, 0x12, 0x34, 0x56, 0x78, 0x90])"
    by (simp add: strip_hyphens_def hex_digit_def hex_byte_def)
next
  show "convertID JNull = Inr None" by simp
qed

theorem convertID_decoding_witness:
  "\<not> truthy (JStr []) \<and> convertID (JStr []) = Inr None
   \<and> ''0a-zz12'' \<noteq> []
   \<and> (\<exists>bs. convertID (JStr ''0a-zz12'') = Inr (Some bs) \<and> length bs = 1
          \<and> 0 < length bs \<and> unat (bs ! 0) = 10
          \<and> 2 * length bs + 2 \<le> length ''0azz12'' \<and> \<not> is_hex ''zz'')"
proof -
  have c: "take 16 (strip_hyphens ''0a-zz12'') = ''0azz12''" by (simp add: strip_hyphens_def)
  have f: "\<not> truthy (JStr [])" and n: "''0a-zz12'' \<noteq> []" by simp_all
  from convertID_decoding [of "JStr []" "''0a-zz12''"] f n obtain bs where
    e: "convertID (JStr []) = Inr None"
    and b: "convertID (JStr ''0a-zz12'') = Inr (Some bs)"
    and nth: "\<forall>j < length bs. unat (bs ! j) = hex_value (take 2 (drop (2 * j) ''0azz12''))"
    and st: "2 * length bs + 2 \<le> length ''0azz12'' \<longrightarrow>
               \<not> is_hex (take 2 (drop (2 * length bs) ''0azz12''))"
    unfolding c by blast
  have "convertID (JStr ''0a-zz12'') = Inr (Some [0x0a])"
    by (simp add: strip_hyphens_def hex_digit_def hex_byte_def)
  with b have l: "length bs = 1" by auto
  then have p: "0 < length bs" "2 * length bs + 2 \<le> length ''0azz12''" by simp_all
  from nth p(1) have "unat (bs ! 0) = hex_value (take 2 (drop (2 * 0) ''0azz12''))" by blast
  then have v: "unat (bs ! 0) = 10" by (simp add: hex_value_def hex_digit_def)
  from st p(2) l have z: "\<not> is_hex ''zz''" by simp
  from f e n b l p v z show ?thesis by blast
qed

text \<open>
  Claim C4 as stated fails: the identifier \<^verbatim>\<open>ab\<close> is a string that is not falsy, and its
  conversion has one byte, not eight.
\<close>

theorem convertID_short_counterexample:
  "truthy (JStr ''ab'') \<and> convertID (JStr ''ab'') = Inr (Some [0xab])
   \<and> length [0xab :: byte] = 1"
  by (simp add: strip_hyphens_def hex_digit_def hex_byte_def)

section \<open>Samplers: properties\<close>

text \<open>
  Claim C6.  The configuration \<^verbatim>\<open>{type: "Probabilistic", options: {samplingRate: 0.5}}\<close>
  gives a probabilistic sampler with the rate 0.5.  For every type string that is none of
  the four known ones, \<^verbatim>\<open>getSampler\<close> raises nothing and returns a constant sampler, with
  the decision 1 when the options give no decision.
\<close>

theorem getSampler_dispatch:
  "(opt_sampler ex = SamplerConfig (JObj [(''type'', JStr ''Probabilistic''),
        (''options'', JObj [(''samplingRate'', JNum (1/2))])]) \<longrightarrow>
      getSampler ex n = Inr (ProbabilisticSampler (JNum (1/2))))
   \<and> (opt_sampler ex = SamplerConfig (JObj cfg) \<and> lookup cfg ''type'' = JStr ty
        \<and> ty \<notin> set known_sampler_types \<and> no_decision (lookup cfg ''options'') \<longrightarrow>
      getSampler ex n = Inr (ConstSampler (JNum 1)))"
proof (intro conjI impI)
  assume "opt_sampler ex = SamplerConfig (JObj [(''type'', JStr ''Probabilistic''),
        (''options'', JObj [(''samplingRate'', JNum (1/2))])])"
  then show "getSampler ex n = Inr (ProbabilisticSampler (JNum (1/2)))"
    by (simp add: getSampler_def and_then_def lookup_def)
next
  assume "opt_sampler ex = SamplerConfig (JObj cfg) \<and> lookup cfg ''type'' = JStr ty
        \<and> ty \<notin> set known_sampler_types \<and> no_decision (lookup cfg ''options'')"
  then show "getSampler ex n = Inr (ConstSampler (JNum 1))"
    by (cases "lookup cfg ''options''")
       (auto simp: getSampler_def and_then_def known_sampler_types_def no_decision_def)
qed

theorem getSampler_dispatch_witness:
  "getSampler (new_exporter\<lparr>opt_sampler := SamplerConfig (JObj [(''type'', JStr ''Probabilistic''),
        (''options'', JObj [(''samplingRate'', JNum (1/2))])])\<rparr>) (JStr ''posts'')
     = Inr (ProbabilisticSampler (JNum (1/2)))
   \<and> ''Bogus'' \<notin> set known_sampler_types
   \<and> getSampler (new_exporter\<lparr>opt_sampler := SamplerConfig (JObj [(''type'', JStr ''Bogus''),
        (''options'', JObj [])])\<rparr>) (JStr ''posts'') = Inr (ConstSampler (JNum 1))"
proof -
  let ?p = "new_exporter\<lparr>opt_sampler := SamplerConfig (JObj [(''type'', JStr ''Probabilistic''),
        (''options'', JObj [(''samplingRate'', JNum (1/2))])])\<rparr>"
  let ?b = "new_exporter\<lparr>opt_sampler := SamplerConfig (JObj [(''type'', JStr ''Bogus''),
        (''options'', JObj [])])\<rparr>"
  have k: "''Bogus'' \<notin> set known_sampler_types" by (simp add: known_sampler_types_def)
  have 1: "getSampler ?p (JStr ''posts'') = Inr (ProbabilisticSampler (JNum (1/2)))"
    using getSampler_dispatch [of ?p "JStr ''posts''" "[]" "[]"] by simp
  have 2: "getSampler ?b (JStr ''posts'') = Inr (ConstSampler (JNum 1))"
    using getSampler_dispatch [of ?b "JStr ''posts''" "[(''type'', JStr ''Bogus''), (''options'', JObj [])]" "''Bogus''"] k
    by (simp add: lookup_def no_decision_def)
  from 1 2 k show ?thesis by blast
qed

text \<open>
  Claim C3.  With the sampler type \<^verbatim>\<open>RemoteControlled\<close>, the tracer that \<^verbatim>\<open>getTracer\<close>
  creates for the service \<^verbatim>\<open>posts\<close> has a remote-controlled sampler with the configured
  options, but the name it is seeded with is undefined and not \<^verbatim>\<open>posts\<close>: line 121 passes
  no argument.  Called with the name, \<^verbatim>\<open>getSampler\<close> seeds the sampler with it.
\<close>

theorem getTracer_RemoteControlled_unseeded:
  "(\<exists>ex'. getTracer (new_exporter\<lparr>opt_sampler := SamplerConfig
               (JObj [(''type'', JStr ''RemoteControlled''), (''options'', JObj [])])\<rparr>)
             (Some ''posts'') = Inr (ex', TracerRef 0)
        \<and> map tracer_serviceName (heap ex') = [JStr ''posts'']
        \<and> map tracer_sampler (heap ex') = [RemoteControlledSampler JUndef (JObj [])])
   \<and> getSampler (new_exporter\<lparr>opt_sampler := SamplerConfig
               (JObj [(''type'', JStr ''RemoteControlled''), (''options'', JObj [])])\<rparr>)
        (JStr ''posts'') = Inr (RemoteControlledSampler (JStr ''posts'') (JObj []))"
  by (simp add: getTracer_def tracers_get_def store_tracer_def Let_def new_exporter_def
      property_key_def object_prototype_keys_def getSampler_def and_then_def lookup_def
      getReporter_def name_value_def)

section \<open>The registry of tracers: properties\<close>

lemma getTracer_found:
  "tracers_get ex (property_key n) = Some v \<Longrightarrow> getTracer ex n = Inr (ex, v)"
  by (simp add: getTracer_def)

lemma getTracer_new:
  "tracers_get ex (property_key n) = None \<Longrightarrow> getSampler ex JUndef = Inr sm \<Longrightarrow>
   getTracer ex n = Inr (store_tracer ex (property_key n)
        \<lparr>tracer_serviceName = name_value n, tracer_reporter = getReporter ex,
         tracer_sampler = sm, tracer_options = opt_tracerOptions ex\<rparr>, TracerRef (length (heap ex)))"
  by (simp add: getTracer_def and_then_def)

lemma tracers_get_store_same:
  "tracers_get ex k = None \<Longrightarrow> tracers_get (store_tracer ex k t) k = Some (TracerRef (length (heap ex)))"
  by (auto simp: tracers_get_def store_tracer_def map_add_def split: option.splits if_splits)

lemma tracers_get_store_mono:
  "tracers_get ex k = None \<Longrightarrow> tracers_get ex k' = Some v \<Longrightarrow>
   tracers_get (store_tracer ex k t) k' = Some v"
  by (auto simp: tracers_get_def store_tracer_def map_add_def split: option.splits if_splits)

lemma wf_store: "tracers_wf ex \<Longrightarrow> tracers_wf (store_tracer ex k t)"
  by (fastforce simp: tracers_wf_def store_tracer_def list_all_iff)

lemma wf_lookup_less: "tracers_wf ex \<Longrightarrow> map_of (tracers ex) k = Some r \<Longrightarrow> r < length (heap ex)"
  by (auto simp: tracers_wf_def list_all_iff dest: map_of_SomeD)

lemma wf_inj:
  assumes wf: "tracers_wf ex" and a: "map_of (tracers ex) k = Some r"
    and b: "map_of (tracers ex) k' = Some r"
  shows "k = k'"
proof -
  have d: "distinct (map snd (tracers ex))" using wf by (simp add: tracers_wf_def)
  then have inj: "inj_on snd (set (tracers ex))" by (simp add: distinct_map)
  have "(k, r) \<in> set (tracers ex)" "(k', r) \<in> set (tracers ex)"
    using a b by (auto dest: map_of_SomeD)
  with inj have "(k, r) = (k', r)"
    using inj_onD [of snd "set (tracers ex)" "(k, r)" "(k', r)"] by simp
  then show ?thesis by simp
qed

lemma tracers_get_inj:
  "tracers_wf ex \<Longrightarrow> tracers_get ex k = Some v \<Longrightarrow> tracers_get ex k' = Some v \<Longrightarrow> k = k'"
  by (auto simp: tracers_get_def split: option.splits if_splits dest: wf_inj)

lemma tracers_get_ref:
  "tracers_wf ex \<Longrightarrow> tracers_get ex k = Some v \<Longrightarrow> k \<notin> set object_prototype_keys \<Longrightarrow>
   \<exists>r. v = TracerRef r \<and> r < length (heap ex)"
  by (auto simp: tracers_get_def split: option.splits if_splits dest: wf_lookup_less)

lemma getTracer_cases:
  assumes "getTracer ex n = Inr (ex1, v1)"
  shows "tracers_get ex1 (property_key n) = Some v1
         \<and> (\<forall>k v. tracers_get ex k = Some v \<longrightarrow> tracers_get ex1 k = Some v)
         \<and> (tracers_wf ex \<longrightarrow> tracers_wf ex1)"
proof (cases "tracers_get ex (property_key n)")
  case (Some v)
  with assms show ?thesis by (simp add: getTracer_def)
next
  case None
  with assms obtain t where e: "ex1 = store_tracer ex (property_key n) t"
    and v: "v1 = TracerRef (length (heap ex))"
    by (auto simp: getTracer_def and_then_def Let_def split: sum.splits)
  show ?thesis unfolding e v
    using tracers_get_store_same [OF None] tracers_get_store_mono [OF None] wf_store by blast
qed

text \<open>
  Claim C2, amended.  Take an exporter whose registry is well-formed, as it is after the
  constructor and after every call, and a service name, a string or null, that is not the
  name of a member that the registry object inherits.  Whenever \<^verbatim>\<open>getTracer\<close> returns for it, it
  returns a tracer of the registry, and a second call with the same name returns the
  identical tracer and leaves the exporter as it is.  For two such names with distinct
  property keys (a string is its own key, the key of null is \<^verbatim>\<open>"null"\<close>), whenever
  \<^verbatim>\<open>getTracer\<close> returns for the one and then for the other, the two tracers are distinct, and
  the first name still yields its own.  Null and the string \<^verbatim>\<open>"null"\<close> have one key and
  share one tracer.  With the default sampler configuration \<^verbatim>\<open>getTracer\<close> returns for every
  name.
\<close>

theorem getTracer_identity:
  assumes wf: "tracers_wf ex"
  shows "(getTracer ex n = Inr (ex1, v1) \<and> property_key n \<notin> set object_prototype_keys \<longrightarrow>
            getTracer ex1 n = Inr (ex1, v1) \<and> tracers_wf ex1
            \<and> (\<exists>r. v1 = TracerRef r \<and> r < length (heap ex1)))
       \<and> (getTracer ex n = Inr (ex1, v1) \<and> getTracer ex1 m = Inr (ex2, v2)
            \<and> property_key n \<notin> set object_prototype_keys
            \<and> property_key m \<notin> set object_prototype_keys
            \<and> property_key n \<noteq> property_key m \<longrightarrow>
            v1 \<noteq> v2 \<and> getTracer ex2 n = Inr (ex2, v1))
       \<and> (getTracer ex None = Inr (ex1, v1) \<longrightarrow> getTracer ex1 (Some ''null'') = Inr (ex1, v1))
       \<and> (opt_sampler ex = default_sampler \<longrightarrow> (\<exists>ex' v'. getTracer ex n = Inr (ex', v')))"
proof -
  have A: "getTracer ex n = Inr (ex1, v1) \<and> property_key n \<notin> set object_prototype_keys \<longrightarrow>
            getTracer ex1 n = Inr (ex1, v1) \<and> tracers_wf ex1
            \<and> (\<exists>r. v1 = TracerRef r \<and> r < length (heap ex1))"
  proof
    assume a: "getTracer ex n = Inr (ex1, v1) \<and> property_key n \<notin> set object_prototype_keys"
    from getTracer_cases [of ex n ex1 v1] a wf
    have r: "tracers_get ex1 (property_key n) = Some v1" and w: "tracers_wf ex1" by blast+
    from tracers_get_ref [OF w r] a
    show "getTracer ex1 n = Inr (ex1, v1) \<and> tracers_wf ex1
            \<and> (\<exists>r. v1 = TracerRef r \<and> r < length (heap ex1))"
      using getTracer_found [OF r] w by blast
  qed
  have B: "getTracer ex n = Inr (ex1, v1) \<and> getTracer ex1 m = Inr (ex2, v2)
            \<and> property_key n \<notin> set object_prototype_keys
            \<and> property_key m \<notin> set object_prototype_keys
            \<and> property_key n \<noteq> property_key m \<longrightarrow>
            v1 \<noteq> v2 \<and> getTracer ex2 n = Inr (ex2, v1)"
  proof
    assume a: "getTracer ex n = Inr (ex1, v1) \<and> getTracer ex1 m = Inr (ex2, v2)
            \<and> property_key n \<notin> set object_prototype_keys
            \<and> property_key m \<notin> set object_prototype_keys
            \<and> property_key n \<noteq> property_key m"
    from getTracer_cases [of ex n ex1 v1] a wf
    have r1: "tracers_get ex1 (property_key n) = Some v1" and w1: "tracers_wf ex1" by blast+
    from getTracer_cases [of ex1 m ex2 v2] a w1
    have r2: "tracers_get ex2 (property_key m) = Some v2" and w2: "tracers_wf ex2"
      and mono: "\<forall>k v. tracers_get ex1 k = Some v \<longrightarrow> tracers_get ex2 k = Some v" by blast+
    from mono r1 have r1': "tracers_get ex2 (property_key n) = Some v1" by blast
    have "v1 \<noteq> v2"
    proof
      assume "v1 = v2"
      with r1' r2 have "property_key n = property_key m" using tracers_get_inj [OF w2] by blast
      with a show False by blast
    qed
    then show "v1 \<noteq> v2 \<and> getTracer ex2 n = Inr (ex2, v1)"
      using getTracer_found [OF r1'] by blast
  qed
  have C: "getTracer ex None = Inr (ex1, v1) \<longrightarrow> getTracer ex1 (Some ''null'') = Inr (ex1, v1)"
  proof
    assume a: "getTracer ex None = Inr (ex1, v1)"
    from getTracer_cases [OF a]
    have "tracers_get ex1 (property_key None) = Some v1" by blast
    then have "tracers_get ex1 (property_key (Some ''null'')) = Some v1"
      by (simp add: property_key_def)
    then show "getTracer ex1 (Some ''null'') = Inr (ex1, v1)" by (rule getTracer_found)
  qed
  have D: "opt_sampler ex = default_sampler \<longrightarrow> (\<exists>ex' v'. getTracer ex n = Inr (ex', v'))"
  proof
    assume "opt_sampler ex = default_sampler"
    then have "getSampler ex JUndef = Inr (ConstSampler (JNum 1))"
      by (simp add: getSampler_def default_sampler_def and_then_def lookup_def)
    then show "\<exists>ex' v'. getTracer ex n = Inr (ex', v')"
      by (cases "tracers_get ex (property_key n)") (simp_all add: getTracer_def and_then_def Let_def)
  qed
  from A B C D show ?thesis by (intro conjI)
qed

theorem getTracer_identity_witness:
  "tracers_wf new_exporter \<and> opt_sampler new_exporter = default_sampler
   \<and> property_key (Some ''posts'') \<notin> set object_prototype_keys
   \<and> property_key (Some ''users'') \<notin> set object_prototype_keys
   \<and> property_key (Some ''posts'') \<noteq> property_key (Some ''users'')
   \<and> (\<exists>ex1 v1 ex2 v2. getTracer new_exporter (Some ''posts'') = Inr (ex1, v1)
         \<and> getTracer ex1 (Some ''posts'') = Inr (ex1, v1)
         \<and> (\<exists>r. v1 = TracerRef r \<and> r < length (heap ex1))
         \<and> getTracer ex1 (Some ''users'') = Inr (ex2, v2) \<and> v1 \<noteq> v2
         \<and> getTracer ex2 (Some ''posts'') = Inr (ex2, v1))
   \<and> (\<exists>ex1 v1. getTracer new_exporter None = Inr (ex1, v1)
         \<and> getTracer ex1 (Some ''null'') = Inr (ex1, v1))"
proof -
  have wf: "tracers_wf new_exporter" by (simp add: tracers_wf_def new_exporter_def)
  have ds: "opt_sampler new_exporter = default_sampler" by (simp add: new_exporter_def)
  have k: "property_key (Some ''posts'') \<notin> set object_prototype_keys"
    "property_key (Some ''users'') \<notin> set object_prototype_keys"
    "property_key (Some ''posts'') \<noteq> property_key (Some ''users'')"
    by (simp_all add: property_key_def object_prototype_keys_def)
  from getTracer_identity [OF wf, of "Some ''posts''"] ds obtain ex1 v1 where
    g1: "getTracer new_exporter (Some ''posts'') = Inr (ex1, v1)" by blast
  from getTracer_identity [OF wf, of "Some ''posts''" ex1 v1] g1 k
  have s1: "getTracer ex1 (Some ''posts'') = Inr (ex1, v1)" and w1: "tracers_wf ex1"
    and t1: "\<exists>r. v1 = TracerRef r \<and> r < length (heap ex1)" by blast+
  have ds1: "opt_sampler ex1 = default_sampler"
    using g1 ds by (auto simp: getTracer_def and_then_def Let_def store_tracer_def
                         split: option.splits sum.splits)
  from getTracer_identity [OF w1, of "Some ''users''"] ds1 obtain ex2 v2 where
    g2: "getTracer ex1 (Some ''users'') = Inr (ex2, v2)" by blast
  from getTracer_identity [OF wf, of "Some ''posts''" ex1 v1 "Some ''users''" ex2 v2] g1 g2 k
  have d: "v1 \<noteq> v2" "getTracer ex2 (Some ''posts'') = Inr (ex2, v1)" by blast+
  from getTracer_identity [OF wf, of None] ds obtain ex3 v3 where
    g3: "getTracer new_exporter None = Inr (ex3, v3)" by blast
  from getTracer_identity [OF wf, of None ex3 v3] g3
  have n: "getTracer ex3 (Some ''null'') = Inr (ex3, v3)" by blast
  from wf ds k g1 s1 t1 g2 d g3 n show ?thesis by blast
qed

text \<open>
  Claim C2 as stated fails: null, the service name of a span without a service, and the
  string \<^verbatim>\<open>"null"\<close> are distinct service names, and \<^verbatim>\<open>getTracer\<close> returns the same tracer for
  both.
\<close>

theorem null_shares_tracer_counterexample:
  "None \<noteq> Some ''null''
   \<and> getTracer new_exporter None
       = Inr (store_tracer new_exporter ''null''
                \<lparr>tracer_serviceName = JNull, tracer_reporter = getReporter new_exporter,
                 tracer_sampler = ConstSampler (JNum 1), tracer_options = JObj []\<rparr>,
              TracerRef 0)
   \<and> getTracer (store_tracer new_exporter ''null''
                \<lparr>tracer_serviceName = JNull, tracer_reporter = getReporter new_exporter,
                 tracer_sampler = ConstSampler (JNum 1), tracer_options = JObj []\<rparr>)
        (Some ''null'')
       = Inr (store_tracer new_exporter ''null''
                \<lparr>tracer_serviceName = JNull, tracer_reporter = getReporter new_exporter,
                 tracer_sampler = ConstSampler (JNum 1), tracer_options = JObj []\<rparr>,
              TracerRef 0)"
  by (simp add: getTracer_def tracers_get_def store_tracer_def Let_def new_exporter_def
        default_sampler_def property_key_def object_prototype_keys_def getSampler_def
        and_then_def lookup_def getReporter_def name_value_def)

section \<open>Tags: properties\<close>

text \<open>
  What \<^verbatim>\<open>addTags\<close> does in full: it raises exactly when the value is null or holds a null,
  and otherwise sets one tag for each leaf of the value, under its dotted path.
\<close>

lemma addTags_flatten:
  "tag_name prefix key \<noteq> [] \<Longrightarrow>
     addTags js key v prefix =
       (if null_free v
        then Inr (js\<lparr>js_tags := js_tags js
                @ as_tags (flatten_leaves (Some (tag_name prefix key)) v)\<rparr>)
        else Inl TypeError)"
  "nm \<noteq> [] \<Longrightarrow>
     addTags_each js fs nm =
       (if null_free_fields fs
        then Inr (js\<lparr>js_tags := js_tags js
                @ as_tags (concat (map (\<lambda>(k, x). flatten_leaves (Some (nm @ ''.'' @ k)) x) fs))\<rparr>)
        else Inl TypeError)"
proof (induction js key v prefix and js fs nm rule: addTags_addTags_each.induct)
  case (5 js k v rest nm)
  have n: "tag_name (Some nm) k \<noteq> []" using "5.prems" by (simp add: tag_name_def)
  show ?case
  proof (cases "null_free v")
    case False
    then show ?thesis using "5.IH"(1) [OF n] by simp
  next
    case True
    let ?js' = "js\<lparr>js_tags := js_tags js
                  @ as_tags (flatten_leaves (Some (tag_name (Some nm) k)) v)\<rparr>"
    have a: "addTags js k v (Some nm) = Inr ?js'" using "5.IH"(1) [OF n] True by simp
    show ?thesis using "5.IH"(2) [OF a "5.prems"] a True "5.prems"
      by (simp add: tag_name_def as_tags_def)
  qed
qed (simp_all add: setTag_def as_tags_def)

text \<open>
  On values without null \<^verbatim>\<open>addTags\<close> is the flattening of the specification.  For a value
  whose \<^verbatim>\<open>typeof\<close> is not \<^verbatim>\<open>"object"\<close> it sets exactly one tag, keyed by the current dotted
  path.  For a mapping it recurses into each key, with \<^verbatim>\<open>.<key>\<close> appended to the path, and
  sets all the leaves.  The mapping \<^verbatim>\<open>{a: {b: 1, c: 2}}\<close> under \<^verbatim>\<open>x\<close> gives exactly
  \<^verbatim>\<open>x.a.b = 1\<close> and \<^verbatim>\<open>x.a.c = 2\<close>.
\<close>

theorem addTags_flattening:
  "(\<not> typeof_object v \<longrightarrow>
      addTags js key v prefix
        = Inr (js\<lparr>js_tags := js_tags js @ [(tag_name prefix key, Val v)]\<rparr>))
   \<and> addTags js key (JObj fs) prefix = addTags_each js fs (tag_name prefix key)
   \<and> addTags_each js ((k, x) # rest) nm =
        (case addTags js k x (Some nm) of Inl e \<Rightarrow> Inl e | Inr js' \<Rightarrow> addTags_each js' rest nm)
   \<and> (nm \<noteq> [] \<longrightarrow> tag_name (Some nm) k = nm @ ''.'' @ k)
   \<and> (tag_name prefix key \<noteq> [] \<and> null_free v \<longrightarrow>
        addTags js key v prefix =
          Inr (js\<lparr>js_tags := js_tags js
                 @ as_tags (flatten_leaves (Some (tag_name prefix key)) v)\<rparr>))
   \<and> addTags js ''x'' (JObj [(''a'', JObj [(''b'', JNum 1), (''c'', JNum 2)])]) None
        = Inr (js\<lparr>js_tags := js_tags js
                 @ [(''x.a.b'', Val (JNum 1)), (''x.a.c'', Val (JNum 2))]\<rparr>)"
proof -
  have a: "\<not> typeof_object v \<longrightarrow>
      addTags js key v prefix
        = Inr (js\<lparr>js_tags := js_tags js @ [(tag_name prefix key, Val v)]\<rparr>)"
    by (cases v) (simp_all add: setTag_def)
  have b: "addTags js key (JObj fs) prefix = addTags_each js fs (tag_name prefix key)" by simp
  have c: "addTags_each js ((k, x) # rest) nm =
        (case addTags js k x (Some nm) of Inl e \<Rightarrow> Inl e | Inr js' \<Rightarrow> addTags_each js' rest nm)"
    by simp
  have d: "nm \<noteq> [] \<longrightarrow> tag_name (Some nm) k = nm @ ''.'' @ k" by (simp add: tag_name_def)
  have e: "tag_name prefix key \<noteq> [] \<and> null_free v \<longrightarrow>
        addTags js key v prefix =
          Inr (js\<lparr>js_tags := js_tags js
                 @ as_tags (flatten_leaves (Some (tag_name prefix key)) v)\<rparr>)"
    using addTags_flatten(1) [of prefix key js v] by simp
  have f: "addTags js ''x'' (JObj [(''a'', JObj [(''b'', JNum 1), (''c'', JNum 2)])]) None
        = Inr (js\<lparr>js_tags := js_tags js
                 @ [(''x.a.b'', Val (JNum 1)), (''x.a.c'', Val (JNum 2))]\<rparr>)"
    by (simp add: tag_name_def setTag_def)
  from a b c d e f show ?thesis by blast
qed

theorem addTags_flattening_witness:
  "\<not> typeof_object (JNum 1)
   \<and> addTags (startSpan 0 sample_context (JStr ''op'') (JNum 0) None []) ''x.a.b'' (JNum 1) None
       = Inr (startSpan 0 sample_context (JStr ''op'') (JNum 0) None [(''x.a.b'', JNum 1)])
   \<and> tag_name (Some ''x'') ''a'' = ''x.a''
   \<and> null_free (JObj [(''a'', JObj [(''b'', JNum 1), (''c'', JNum 2)])])
   \<and> addTags (startSpan 0 sample_context (JStr ''op'') (JNum 0) None []) ''a''
        (JObj [(''b'', JNum 1), (''c'', JNum 2)]) (Some ''x'')
       = Inr (startSpan 0 sample_context (JStr ''op'') (JNum 0) None
               [(''x.a.b'', JNum 1), (''x.a.c'', JNum 2)])"
proof -
  let ?js = "startSpan 0 sample_context (JStr ''op'') (JNum 0) None []"
  have t: "tag_name (Some ''x'') ''a'' = ''x.a''" by (simp add: tag_name_def)
  have n: "null_free (JObj [(''b'', JNum 1), (''c'', JNum 2)])" by simp
  have n2: "null_free (JObj [(''a'', JObj [(''b'', JNum 1), (''c'', JNum 2)])])" by simp
  have s: "\<not> typeof_object (JNum 1)" by simp
  have x: "''x'' \<noteq> []" by simp
  have 1: "addTags ?js ''x.a.b'' (JNum 1) None
       = Inr (startSpan 0 sample_context (JStr ''op'') (JNum 0) None [(''x.a.b'', JNum 1)])"
    using addTags_flattening [of "JNum 1" ?js "''x.a.b''" None "[]" "''k''" "JNum 1" "[]" "''x''"] s
    by (simp add: startSpan_def tag_name_def as_tags_def)
  have 2: "addTags ?js ''a'' (JObj [(''b'', JNum 1), (''c'', JNum 2)]) (Some ''x'')
       = Inr (startSpan 0 sample_context (JStr ''op'') (JNum 0) None
               [(''x.a.b'', JNum 1), (''x.a.c'', JNum 2)])"
    using addTags_flattening [of "JObj [(''b'', JNum 1), (''c'', JNum 2)]" ?js "''a''" "Some ''x''" "[]" "''k''" "JNum 1" "[]" "''x''"] n
    by (simp add: startSpan_def tag_name_def as_tags_def)
  from s 1 t n2 2 show ?thesis by blast
qed

text \<open>
  Claim C9.  The flattening of \<^verbatim>\<open>addTags\<close> does not emit every leaf: for the scalar null it
  sets no tag and raises, and for the mapping \<^verbatim>\<open>{a: {b: 1, c: null}}\<close> under \<^verbatim>\<open>x\<close> it raises
  at the leaf \<^verbatim>\<open>x.a.c\<close>, where the specification's flattening lists the two leaves
  \<^verbatim>\<open>x.a.b = 1\<close> and \<^verbatim>\<open>x.a.c = null\<close>.
\<close>

theorem addTags_null_leaf:
  "addTags (startSpan 0 sample_context (JStr ''op'') (JNum 0) None []) ''x'' JNull None
     = Inl TypeError
   \<and> addTags (startSpan 0 sample_context (JStr ''op'') (JNum 0) None []) ''x''
       (JObj [(''a'', JObj [(''b'', JNum 1), (''c'', JNull)])]) None
     = Inl TypeError
   \<and> flatten_leaves (Some ''x'') (JObj [(''a'', JObj [(''b'', JNum 1), (''c'', JNull)])])
     = [(''x.a.b'', JNum 1), (''x.a.c'', JNull)]"
  by (simp add: tag_name_def setTag_def)

text \<open>The definitions that evaluate a conversion on a given span.\<close>

lemmas conversion_defs =
  generateJaegerSpan_def getTracer_def tracers_get_def store_tracer_def Let_def
  new_exporter_def default_sampler_def property_key_def object_prototype_keys_def getSampler_def
  and_then_def lookup_def getReporter_def name_value_def sample_span_def sample_error_def
  sample_context_def parent_context_def merged_tags_def defaultsDeep_def merge_source_def
  service_value_def service_object_def service_after_def flattenTags_def startSpan_def
  tag_name_def setTag_def addErrorTags_def strip_hyphens_def hex_digit_def hex_byte_def has_key_def
  as_tags_def

text \<open>
  Claim C8.  The conversion of a span whose error has the name null raises a
  \<^verbatim>\<open>TypeError\<close> and returns no backend span: \<^verbatim>\<open>typeof null\<close> is \<^verbatim>\<open>"object"\<close>, and line 210
  asks for the keys of null.  The same happens at line 173 for every span without a
  service, whose service name is null by line 147.
\<close>

theorem generateJaegerSpan_null_error_field:
  "generateJaegerSpan new_exporter sample_context
     (sample_span\<lparr>span_error := Some (sample_error\<lparr>err_name := JNull\<rparr>)\<rparr>) = Inl TypeError
   \<and> generateJaegerSpan new_exporter sample_context (sample_span\<lparr>service := None\<rparr>) = Inl TypeError"
  by (simp add: conversion_defs)

section \<open>The conversion: what it returns and when\<close>

lemma addTags_top:
  "key \<noteq> [] \<Longrightarrow>
     addTags js key v None =
       (if null_free v
        then Inr (js\<lparr>js_tags := js_tags js @ as_tags (flatten_leaves (Some key) v)\<rparr>)
        else Inl TypeError)"
  using addTags_flatten(1) [of None key js v] by (simp add: tag_name_def)

lemma addErrorTags_result:
  "addErrorTags js e =
     (if error_renders e then Inr (js\<lparr>js_tags := js_tags js @ error_tags e\<rparr>) else Inl TypeError)"
  by (cases "toString (err_stack e)")
     (auto simp: addErrorTags_def and_then_def addTags_top error_renders_def error_tags_def
        setTag_def tag_name_def as_tags_def intro: error.exhaust)

lemma generateJaegerSpan_iff:
  "generateJaegerSpan ex ctx0 sp = Inr (ex1, sp1, js) \<longleftrightarrow>
     (\<exists>svc r pc t i.
        service sp = Some svc
        \<and> getTracer ex (Some (svc_name svc)) = Inr (ex1, TracerRef r)
        \<and> parent_context sp = Inr pc
        \<and> convertID (traceID sp) = Inr t
        \<and> convertID (span_id sp) = Inr i
        \<and> (case span_error sp of None \<Rightarrow> True | Some e \<Rightarrow> error_renders e)
        \<and> sp1 = sp\<lparr>service := service_after (service sp) (merged_tags ex1 sp)\<rparr>
        \<and> js = backend_span r ctx0 sp ex1 (svc_name svc) pc t i)"
  unfolding generateJaegerSpan_def backend_span_def
  by (auto simp: and_then_def Let_def addTags_top addErrorTags_result name_value_def startSpan_def
           setTag_def tag_name_def as_tags_def
           split: sum.splits option.splits tracer_value.splits prod.splits if_splits
           simp del: convertID.simps)

text \<open>
  A span without a service, and a span whose error has a null in a field that is looked at,
  are never converted: the call raises.  The registry stays well-formed, and the tags of
  the span are never changed.
\<close>

lemma not_Inr_TypeError: "(\<And>x. r \<noteq> Inr x) \<Longrightarrow> r = Inl TypeError"
  by (cases r) (auto intro: error.exhaust)

lemma generateJaegerSpan_no_service:
  "service sp = None \<Longrightarrow> generateJaegerSpan ex ctx0 sp = Inl TypeError"
  by (rule not_Inr_TypeError) (auto simp: generateJaegerSpan_iff)

lemma generateJaegerSpan_null_in_error:
  "span_error sp = Some e \<Longrightarrow> \<not> error_renders e \<Longrightarrow> generateJaegerSpan ex ctx0 sp = Inl TypeError"
  by (rule not_Inr_TypeError) (auto simp: generateJaegerSpan_iff)

lemma getTracer_wf:
  "tracers_wf ex \<Longrightarrow> getTracer ex n = Inr (ex1, v) \<Longrightarrow> tracers_wf ex1"
  by (auto simp: getTracer_def and_then_def Let_def wf_store split: option.splits sum.splits)

lemma generateJaegerSpan_wf:
  "tracers_wf ex \<Longrightarrow> generateJaegerSpan ex ctx0 sp = Inr (ex1, sp1, js) \<Longrightarrow> tracers_wf ex1"
  by (auto simp: generateJaegerSpan_iff dest: getTracer_wf)

lemma init_wf: "tracers_wf ex \<Longrightarrow> tracers_wf (init ex dt)"
  by (simp add: tracers_wf_def init_def)

lemma generateJaegerSpan_tags_unchanged:
  "generateJaegerSpan ex ctx0 sp = Inr (ex1, sp1, js) \<Longrightarrow> tags sp1 = tags sp"
  by (auto simp: generateJaegerSpan_iff)

lemma parent_context_cases:
  "parent_context sp = Inr pc \<Longrightarrow>
     (truthy (parentID sp) \<longrightarrow>
        (\<exists>c. pc = Some c \<and> convertID (traceID sp) = Inr (sc_traceId c)
             \<and> convertID (parentID sp) = Inr (sc_spanId c)
             \<and> sc_parentId c = None \<and> sc_flags c = 1 \<and> sc_baggage c = [] \<and> sc_debugId c = []))
     \<and> (\<not> truthy (parentID sp) \<longrightarrow> pc = None)"
  by (auto simp: parent_context_def and_then_def split: if_splits sum.splits simp del: convertID.simps)

text \<open>
  Claim C5.  For every span that is converted, the trace and span identifiers in the
  context of the backend span are exactly \<^verbatim>\<open>convertID(span.traceID)\<close> and
  \<^verbatim>\<open>convertID(span.id)\<close>.  When \<^verbatim>\<open>span.parentID\<close> is present (truthy) the backend span is
  the child of a context with the identifiers \<^verbatim>\<open>convertID(span.traceID)\<close> and
  \<^verbatim>\<open>convertID(span.parentID)\<close>, empty baggage and the flag value 1; otherwise it is a
  root span, without a parent context.
\<close>

theorem generateJaegerSpan_identifiers:
  assumes "generateJaegerSpan ex ctx0 sp = Inr (ex1, sp1, js)"
  shows "convertID (traceID sp) = Inr (sc_traceId (js_context js))
       \<and> convertID (span_id sp) = Inr (sc_spanId (js_context js))
       \<and> (truthy (parentID sp) \<longrightarrow>
            (\<exists>c. childOf js = Some c \<and> convertID (traceID sp) = Inr (sc_traceId c)
               \<and> convertID (parentID sp) = Inr (sc_spanId c)
               \<and> sc_parentId c = None \<and> sc_flags c = 1 \<and> sc_baggage c = []
               \<and> sc_debugId c = []))
       \<and> (\<not> truthy (parentID sp) \<longrightarrow> childOf js = None)"
proof -
  from assms have "\<exists>pc. parent_context sp = Inr pc \<and> childOf js = pc
      \<and> convertID (traceID sp) = Inr (sc_traceId (js_context js))
      \<and> convertID (span_id sp) = Inr (sc_spanId (js_context js))"
    by (auto simp: generateJaegerSpan_iff backend_span_def simp del: convertID.simps)
  then obtain pc where pc: "parent_context sp = Inr pc" and c: "childOf js = pc"
    and t: "convertID (traceID sp) = Inr (sc_traceId (js_context js))"
    and i: "convertID (span_id sp) = Inr (sc_spanId (js_context js))"
    by blast
  show ?thesis using parent_context_cases [OF pc] t i unfolding c by blast
qed

theorem generateJaegerSpan_identifiers_witness:
  "(\<exists>ex1 sp1 js. generateJaegerSpan new_exporter sample_context child_span = Inr (ex1, sp1, js)
      \<and> sc_traceId (js_context js) = Some [0x0a, 0x0b, 0x0c, 0x0d, 0x01, 0x02, 0x03, 0x04]
      \<and> sc_spanId (js_context js) = Some [0xab, 0xcd, 0xef, 0x12, 0x34, 0x56, 0x78, 0x90]
      \<and> (\<exists>c. childOf js = Some c
            \<and> sc_traceId c = Some [0x0a, 0x0b, 0x0c, 0x0d, 0x01, 0x02, 0x03, 0x04]
            \<and> sc_spanId c = Some [0x11, 0x22, 0x33, 0x44, 0x55, 0x66, 0x77, 0x88]
            \<and> sc_flags c = 1 \<and> sc_baggage c = []))
   \<and> (\<exists>ex1 sp1 js. generateJaegerSpan new_exporter sample_context sample_span = Inr (ex1, sp1, js)
      \<and> childOf js = None)"
proof -
  have ids: "convertID (traceID child_span) = Inr (Some [0x0a, 0x0b, 0x0c, 0x0d, 0x01, 0x02, 0x03, 0x04])"
    "convertID (span_id child_span) = Inr (Some [0xab, 0xcd, 0xef, 0x12, 0x34, 0x56, 0x78, 0x90])"
    "convertID (parentID child_span) = Inr (Some [0x11, 0x22, 0x33, 0x44, 0x55, 0x66, 0x77, 0x88])"
    "truthy (parentID child_span)" "\<not> truthy (parentID sample_span)"
    by (simp_all add: child_span_def sample_span_def strip_hyphens_def hex_digit_def hex_byte_def)
  have "\<exists>ex1 sp1 js. generateJaegerSpan new_exporter sample_context child_span = Inr (ex1, sp1, js)"
    by (simp add: child_span_def conversion_defs)
  then obtain ex1 sp1 js where
    g: "generateJaegerSpan new_exporter sample_context child_span = Inr (ex1, sp1, js)" by blast
  have "\<exists>ex1 sp1 js. generateJaegerSpan new_exporter sample_context sample_span = Inr (ex1, sp1, js)"
    by (simp add: conversion_defs)
  then obtain ex2 sp2 js2 where
    g2: "generateJaegerSpan new_exporter sample_context sample_span = Inr (ex2, sp2, js2)" by blast
  from generateJaegerSpan_identifiers [OF g] ids
  have a: "sc_traceId (js_context js) = Some [0x0a, 0x0b, 0x0c, 0x0d, 0x01, 0x02, 0x03, 0x04]
      \<and> sc_spanId (js_context js) = Some [0xab, 0xcd, 0xef, 0x12, 0x34, 0x56, 0x78, 0x90]
      \<and> (\<exists>c. childOf js = Some c
            \<and> sc_traceId c = Some [0x0a, 0x0b, 0x0c, 0x0d, 0x01, 0x02, 0x03, 0x04]
            \<and> sc_spanId c = Some [0x11, 0x22, 0x33, 0x44, 0x55, 0x66, 0x77, 0x88]
            \<and> sc_flags c = 1 \<and> sc_baggage c = [])"
    by (auto simp del: convertID.simps)
  from generateJaegerSpan_identifiers [OF g2] ids have b: "childOf js2 = None" by blast
  from a b g g2 show ?thesis by blast
qed

text \<open>
  Claim C10.  The conversion changes its input: for a span of the service \<^verbatim>\<open>posts\<close> whose
  tags are \<^verbatim>\<open>{service: {extra: 1}}\<close>, the descriptor \<^verbatim>\<open>span.service\<close> is \<^verbatim>\<open>{name: "posts"}\<close>
  before the call and \<^verbatim>\<open>{name: "posts", extra: 1}\<close> after it.  The tags of the span are as
  before.
\<close>

theorem generateJaegerSpan_mutates_service:
  "service sample_span = Some \<lparr>svc_name = ''posts'', svc_props = []\<rparr>
   \<and> result_span (generateJaegerSpan new_exporter sample_context
        (sample_span\<lparr>tags := JObj [(''service'', JObj [(''extra'', JNum 1)])]\<rparr>))
     = Some (sample_span\<lparr>tags := JObj [(''service'', JObj [(''extra'', JNum 1)])],
          service := Some \<lparr>svc_name = ''posts'', svc_props = [(''extra'', JNum 1)]\<rparr>\<rparr>)"
  by (simp add: conversion_defs result_span_def)

section \<open>Error tags: properties\<close>

lemma scalar_flatten:
  "\<not> typeof_object v \<Longrightarrow> flatten_leaves (Some p) v = [(p, v)] \<and> null_free v"
  by (cases v) simp_all

lemma merged_tags_error [simp]: "merged_tags ex (sp\<lparr>span_error := x\<rparr>) = merged_tags ex sp"
  by (simp add: merged_tags_def)

lemma parent_context_error [simp]: "parent_context (sp\<lparr>span_error := x\<rparr>) = parent_context sp"
  by (simp add: parent_context_def)

text \<open>
  Claim C7, amended.  Take a span that is converted when it has no error, and an error
  whose name, message, type and code are scalars (their \<^verbatim>\<open>typeof\<close> is not \<^verbatim>\<open>"object"\<close>),
  whose data, when truthy, holds no null, and whose stack, when truthy, has a
  \<^verbatim>\<open>toString\<close> method.  The span with this error is converted too, and its backend span
  has, after the tags of the span without the error, the tags \<^verbatim>\<open>error = true\<close>,
  \<^verbatim>\<open>error.name\<close>, \<^verbatim>\<open>error.message\<close>, \<^verbatim>\<open>error.type\<close> and \<^verbatim>\<open>error.code\<close> with the values of
  the error; then, for the data, nothing when it is falsy, the one tag \<^verbatim>\<open>error.data\<close> when
  it is a truthy scalar, and one tag for each leaf under \<^verbatim>\<open>error.data.<key>\<close> when it is a
  mapping (none for a mapping without leaves); then the tag \<^verbatim>\<open>error.stack\<close>, the
  stringified stack, if and only if the stack is present (truthy).
\<close>

theorem generateJaegerSpan_error_tags:
  assumes conv: "generateJaegerSpan ex ctx0 (sp\<lparr>span_error := None\<rparr>) = Inr (ex1, sp1, js0)"
    and sc: "\<not> typeof_object (err_name e)" "\<not> typeof_object (err_message e)"
            "\<not> typeof_object (err_type e)" "\<not> typeof_object (err_code e)"
    and dt: "truthy (err_data e) \<longrightarrow> null_free (err_data e)"
    and st: "truthy (err_stack e) \<longrightarrow> toString (err_stack e) = Inr stv"
  shows "\<exists>sp2 js. generateJaegerSpan ex ctx0 (sp\<lparr>span_error := Some e\<rparr>) = Inr (ex1, sp2, js)
           \<and> service sp2 = service sp1 \<and> tags sp2 = tags sp1
           \<and> js_tags js = js_tags js0
               @ [(''error'', Val (JBool True)), (''error.name'', Val (err_name e)),
                  (''error.message'', Val (err_message e)), (''error.type'', Val (err_type e)),
                  (''error.code'', Val (err_code e))]
               @ as_tags (case err_data e of
                    JObj fs \<Rightarrow> concat (map (\<lambda>(k, x). flatten_leaves (Some (''error.data.'' @ k)) x) fs)
                  | d \<Rightarrow> if truthy d then [(''error.data'', d)] else [])
               @ (if truthy (err_stack e) then [(''error.stack'', stv)] else [])"
proof -
  have r: "error_renders e"
    using sc dt st by (auto simp: error_renders_def scalar_flatten)
  have dpart: "(if truthy (err_data e) then flatten_leaves (Some ''error.data'') (err_data e) else [])
       = (case err_data e of
            JObj fs \<Rightarrow> concat (map (\<lambda>(k, x). flatten_leaves (Some (''error.data.'' @ k)) x) fs)
          | d \<Rightarrow> if truthy d then [(''error.data'', d)] else [])"
    by (cases "err_data e") simp_all
  have et: "error_tags e =
       [(''error'', Val (JBool True)), (''error.name'', Val (err_name e)),
        (''error.message'', Val (err_message e)), (''error.type'', Val (err_type e)),
        (''error.code'', Val (err_code e))]
       @ as_tags (case err_data e of
            JObj fs \<Rightarrow> concat (map (\<lambda>(k, x). flatten_leaves (Some (''error.data.'' @ k)) x) fs)
          | d \<Rightarrow> if truthy d then [(''error.data'', d)] else [])
       @ (if truthy (err_stack e) then [(''error.stack'', stv)] else [])"
    unfolding error_tags_def dpart using sc st by (simp add: scalar_flatten as_tags_def)
  from conv obtain svc r' pc t i where
    c: "service sp = Some svc" "getTracer ex (Some (svc_name svc)) = Inr (ex1, TracerRef r')"
       "parent_context sp = Inr pc" "convertID (traceID sp) = Inr t" "convertID (span_id sp) = Inr i"
    and s1: "sp1 = sp\<lparr>span_error := None, service := service_after (service sp) (merged_tags ex1 sp)\<rparr>"
    and j0: "js0 = backend_span r' ctx0 (sp\<lparr>span_error := None\<rparr>) ex1 (svc_name svc) pc t i"
    by (auto simp: generateJaegerSpan_iff simp del: convertID.simps)
  let ?sp2 = "sp\<lparr>span_error := Some e, service := service_after (service sp) (merged_tags ex1 sp)\<rparr>"
  let ?js = "backend_span r' ctx0 (sp\<lparr>span_error := Some e\<rparr>) ex1 (svc_name svc) pc t i"
  have g: "generateJaegerSpan ex ctx0 (sp\<lparr>span_error := Some e\<rparr>) = Inr (ex1, ?sp2, ?js)"
    unfolding generateJaegerSpan_iff using c r by (simp del: convertID.simps)
  have tg: "js_tags ?js = js_tags js0 @ error_tags e"
    unfolding j0 by (simp add: backend_span_def)
  have "service ?sp2 = service sp1 \<and> tags ?sp2 = tags sp1" unfolding s1 by simp
  with g tg show ?thesis unfolding et by blast
qed

theorem generateJaegerSpan_error_tags_witness:
  "\<exists>ex1 sp1 js0 sp2 js.
     generateJaegerSpan new_exporter sample_context (sample_span\<lparr>span_error := None\<rparr>)
       = Inr (ex1, sp1, js0)
     \<and> \<not> typeof_object (JStr ''E'') \<and> \<not> typeof_object (JNum 500)
     \<and> truthy (JObj [(''id'', JNum 7)]) \<and> null_free (JObj [(''id'', JNum 7)])
     \<and> truthy (JStr ''Error: boom'') \<and> toString (JStr ''Error: boom'') = Inr (Val (JStr ''Error: boom''))
     \<and> generateJaegerSpan new_exporter sample_context
          (sample_span\<lparr>span_error := Some (sample_error\<lparr>err_data := JObj [(''id'', JNum 7)],
                                                      err_stack := JStr ''Error: boom''\<rparr>)\<rparr>)
       = Inr (ex1, sp2, js)
     \<and> js_tags js = js_tags js0
         @ [(''error'', Val (JBool True)), (''error.name'', Val (JStr ''E'')),
            (''error.message'', Val (JStr ''boom'')), (''error.type'', Val (JStr ''T'')),
            (''error.code'', Val (JNum 500)), (''error.data.id'', Val (JNum 7)),
            (''error.stack'', Val (JStr ''Error: boom''))]"
proof -
  let ?e = "sample_error\<lparr>err_data := JObj [(''id'', JNum 7)], err_stack := JStr ''Error: boom''\<rparr>"
  have "\<exists>ex1 sp1 js0. generateJaegerSpan new_exporter sample_context
          (sample_span\<lparr>span_error := None\<rparr>) = Inr (ex1, sp1, js0)"
    by (simp add: conversion_defs)
  then obtain ex1 sp1 js0 where
    g: "generateJaegerSpan new_exporter sample_context (sample_span\<lparr>span_error := None\<rparr>)
          = Inr (ex1, sp1, js0)" by blast
  have sc: "\<not> typeof_object (err_name ?e)" "\<not> typeof_object (err_message ?e)"
       "\<not> typeof_object (err_type ?e)" "\<not> typeof_object (err_code ?e)"
    by (simp_all add: sample_error_def)
  have dt: "truthy (err_data ?e) \<longrightarrow> null_free (err_data ?e)" by simp
  have st: "truthy (err_stack ?e) \<longrightarrow> toString (err_stack ?e) = Inr (Val (JStr ''Error: boom''))"
    by simp
  have f: "\<not> typeof_object (JStr ''E'')" "\<not> typeof_object (JNum 500)"
       "truthy (JObj [(''id'', JNum 7)])" "null_free (JObj [(''id'', JNum 7)])"
       "truthy (JStr ''Error: boom'')" "toString (JStr ''Error: boom'') = Inr (Val (JStr ''Error: boom''))"
    by simp_all
  from generateJaegerSpan_error_tags [OF g sc dt st] obtain sp2 js where
    "generateJaegerSpan new_exporter sample_context (sample_span\<lparr>span_error := Some ?e\<rparr>)
       = Inr (ex1, sp2, js)"
    "js_tags js = js_tags js0
         @ [(''error'', Val (JBool True)), (''error.name'', Val (JStr ''E'')),
            (''error.message'', Val (JStr ''boom'')), (''error.type'', Val (JStr ''T'')),
            (''error.code'', Val (JNum 500)), (''error.data.id'', Val (JNum 7)),
            (''error.stack'', Val (JStr ''Error: boom''))]"
    by (auto simp: sample_error_def as_tags_def)
  with g f show ?thesis by blast
qed

text \<open>
  Claim C7 as stated fails: an error whose data is the empty mapping has data, and the
  backend span has no tag \<^verbatim>\<open>error.data\<close> nor any tag under it.
\<close>

theorem error_data_without_tag_counterexample:
  "truthy (JObj []) \<and> JObj [] \<noteq> JUndef
   \<and> result_tags (generateJaegerSpan new_exporter sample_context
        (sample_span\<lparr>span_error := Some (sample_error\<lparr>err_data := JObj []\<rparr>)\<rparr>))
     = Some [(''service.name'', Val (JStr ''posts'')), (''x'', Val (JNum 1)),
             (''service'', Val (JStr ''posts'')), (''span.kind'', Val (JStr ''server'')),
             (''error'', Val (JBool True)), (''error.name'', Val (JStr ''E'')),
             (''error.message'', Val (JStr ''boom'')), (''error.type'', Val (JStr ''T'')),
             (''error.code'', Val (JNum 500))]"
  by (simp add: conversion_defs result_tags_def)

section \<open>The merge of defaults: properties\<close>

lemma lookup_assign: "lookup (assign d k v) k' = (if k' = k then v else lookup d k')"
  by (induction d) (auto simp: lookup_def)

lemma lookup_has_key: "lookup d k \<noteq> JUndef \<Longrightarrow> has_key d k"
  by (auto simp: lookup_def has_key_def split: option.splits dest: map_of_SomeD intro: rev_image_eqI)

lemma merge_entry_other: "k' \<noteq> k \<Longrightarrow> lookup (merge_entry d k sv) k' = lookup d k'"
  by (cases sv; cases "lookup d k") (simp_all add: lookup_assign)

lemma merge_entry_keep:
  assumes "scalar_defined (lookup d k')"
  shows "lookup (merge_entry d k sv) k' = lookup d k'"
proof (cases "k' = k")
  case False
  then show ?thesis by (rule merge_entry_other)
next
  case True
  have "lookup d k \<noteq> JUndef" using assms True by (auto simp: scalar_defined_def)
  then have h: "has_key d k" by (rule lookup_has_key)
  show ?thesis using assms True h
    by (cases sv; cases "lookup d k") (simp_all add: scalar_defined_def)
qed

lemma merge_fields_keep:
  "scalar_defined (lookup d k') \<Longrightarrow> lookup (merge_fields d src) k' = lookup d k'"
proof (induction src arbitrary: d)
  case Nil
  show ?case by simp
next
  case (Cons a src)
  obtain k sv where a: "a = (k, sv)" by (cases a)
  have "lookup (merge_entry d k sv) k' = lookup d k'" by (rule merge_entry_keep [OF Cons.prems])
  with Cons show ?case unfolding a by simp
qed

lemma merge_entry_fill:
  "lookup d k = JUndef \<Longrightarrow> scalar_defined sv \<Longrightarrow> lookup (merge_entry d k sv) k = sv"
  by (cases sv) (simp_all add: scalar_defined_def lookup_assign)

lemma merge_fields_absent:
  "\<not> has_key src k \<Longrightarrow> lookup (merge_fields d src) k = lookup d k"
proof (induction src arbitrary: d)
  case Nil
  show ?case by simp
next
  case (Cons a src)
  obtain k' sv where a: "a = (k', sv)" by (cases a)
  from Cons.prems have ne: "k \<noteq> k'" and r: "\<not> has_key src k" by (auto simp: has_key_def a)
  show ?case unfolding a using Cons.IH [OF r] merge_entry_other [OF ne] by simp
qed

lemma merge_fields_fill:
  "lookup d k = JUndef \<Longrightarrow> lookup src k = v \<Longrightarrow> scalar_defined v \<Longrightarrow>
   lookup (merge_fields d src) k = v"
proof (induction src arbitrary: d)
  case Nil
  then show ?case by (simp add: lookup_def scalar_defined_def)
next
  case (Cons a src)
  obtain k' sv where a: "a = (k', sv)" by (cases a)
  show ?case
  proof (cases "k' = k")
    case True
    with Cons.prems a have sv: "sv = v" by (simp add: lookup_def)
    have "lookup (merge_entry d k sv) k = v"
      using merge_entry_fill [OF Cons.prems(1)] Cons.prems(3) sv by simp
    then show ?thesis
      using merge_fields_keep [of "merge_entry d k sv" k src] Cons.prems(3) a True by simp
  next
    case False
    then have ne: "k \<noteq> k'" by simp
    have l: "lookup src k = v" using Cons.prems(2) False a by (simp add: lookup_def)
    have "lookup (merge_entry d k' sv) k = JUndef"
      using merge_entry_other [OF ne] Cons.prems(1) by simp
    from Cons.IH [OF this l Cons.prems(3)] show ?thesis unfolding a by simp
  qed
qed

lemma merge_entry_nested:
  assumes "lookup d K = JObj fs" and "scalar_defined (lookup fs k)"
  shows "\<exists>fs'. lookup (merge_entry d k' sv) K = JObj fs' \<and> lookup fs' k = lookup fs k"
proof (cases "k' = K")
  case False
  then have "K \<noteq> k'" by simp
  from merge_entry_other [OF this] assms show ?thesis by simp
next
  case True
  have h: "has_key d K" using assms(1) lookup_has_key [of d K] by simp
  show ?thesis
  proof (cases sv)
    case (JObj sfs)
    then show ?thesis using assms True
      by (simp add: lookup_assign merge_fields_keep)
  qed (use assms True h in simp_all)
qed

lemma merge_fields_nested:
  "lookup d K = JObj fs \<Longrightarrow> scalar_defined (lookup fs k) \<Longrightarrow>
   \<exists>fs'. lookup (merge_fields d src) K = JObj fs' \<and> lookup fs' k = lookup fs k"
proof (induction src arbitrary: d fs)
  case Nil
  then show ?case by simp
next
  case (Cons a src)
  obtain k' sv where a: "a = (k', sv)" by (cases a)
  from merge_entry_nested [OF Cons.prems, of k' sv] obtain fs1 where
    1: "lookup (merge_entry d k' sv) K = JObj fs1" and 2: "lookup fs1 k = lookup fs k" by blast
  from Cons.IH [OF 1] 2 Cons.prems(2) show ?case unfolding a by simp
qed

lemma gap_undef [simp]: "gap JUndef p"
  by (cases p) simp_all

lemma get_path_undef [simp]: "get_path JUndef p = JUndef"
  by (cases p) simp_all

lemma get_path_scalar_obj:
  "scalar_defined (get_path v (k # p)) \<Longrightarrow> \<exists>fs. v = JObj fs"
  by (cases v) (simp_all add: scalar_defined_def)

lemma scalar_defined_not_undef: "scalar_defined v \<Longrightarrow> v \<noteq> JUndef"
  by (auto simp: scalar_defined_def)

lemma merge_entry_keep_path:
  assumes IH: "\<And>d src. p \<noteq> [] \<Longrightarrow> scalar_defined (get_path (JObj d) p) \<Longrightarrow>
                 get_path (JObj (merge_fields d src)) p = get_path (JObj d) p"
    and sd: "scalar_defined (get_path (JObj d) (k # p))"
  shows "get_path (JObj (merge_entry d k' sv)) (k # p) = get_path (JObj d) (k # p)"
proof (cases "k' = k")
  case False
  then have "k \<noteq> k'" by simp
  from merge_entry_other [OF this] show ?thesis by simp
next
  case True
  show ?thesis
  proof (cases "p = []")
    case True
    with sd have "scalar_defined (lookup d k)" by simp
    from merge_entry_keep [OF this] True show ?thesis by simp
  next
    case False
    then obtain j q where p: "p = j # q" by (cases p) auto
    from sd have "scalar_defined (get_path (lookup d k) (j # q))" by (simp add: p)
    from get_path_scalar_obj [OF this] obtain ofs where o: "lookup d k = JObj ofs" by blast
    then have h: "has_key d k" using lookup_has_key [of d k] by simp
    have sd': "scalar_defined (get_path (JObj ofs) p)" using sd o by simp
    show ?thesis
    proof (cases sv)
      case (JObj sfs)
      then show ?thesis using \<open>k' = k\<close> o IH [OF False sd', of sfs]
        by (simp add: lookup_assign)
    qed (use \<open>k' = k\<close> o h in simp_all)
  qed
qed

lemma merge_fields_keep_path:
  "p \<noteq> [] \<Longrightarrow> scalar_defined (get_path (JObj d) p) \<Longrightarrow>
   get_path (JObj (merge_fields d src)) p = get_path (JObj d) p"
proof (induction p arbitrary: d src)
  case Nil
  then show ?case by simp
next
  case (Cons k p)
  have step: "\<And>d k' sv. scalar_defined (get_path (JObj d) (k # p)) \<Longrightarrow>
      get_path (JObj (merge_entry d k' sv)) (k # p) = get_path (JObj d) (k # p)"
    using merge_entry_keep_path [of p _ k] Cons.IH by blast
  from Cons.prems(2) show ?case
  proof (induction src arbitrary: d)
    case Nil
    show ?case by simp
  next
    case (Cons a src)
    obtain k' sv where a: "a = (k', sv)" by (cases a)
    have 1: "get_path (JObj (merge_entry d k' sv)) (k # p) = get_path (JObj d) (k # p)"
      by (rule step [OF Cons.prems])
    then have "scalar_defined (get_path (JObj (merge_entry d k' sv)) (k # p))"
      using Cons.prems by simp
    from Cons.IH [OF this] 1 show ?case unfolding a by simp
  qed
qed


lemma gap_empty_fields: "p \<noteq> [] \<Longrightarrow> gap (JObj []) p"
  by (cases p) (simp_all add: lookup_def)

lemma merge_entry_fill_path:
  assumes IH: "\<And>d src. p \<noteq> [] \<Longrightarrow> gap (JObj d) p \<Longrightarrow> scalar_defined (get_path (JObj src) p) \<Longrightarrow>
                 get_path (JObj (merge_fields d src)) p = get_path (JObj src) p"
    and g: "gap (JObj d) (k # p)"
    and sd: "scalar_defined (get_path sv p)"
  shows "get_path (JObj (merge_entry d k sv)) (k # p) = get_path sv p"
proof (cases "p = []")
  case True
  with g sd have "lookup d k = JUndef" "scalar_defined sv" by simp_all
  from merge_entry_fill [OF this] True show ?thesis by simp
next
  case False
  then obtain j q where p: "p = j # q" by (cases p) auto
  from sd get_path_scalar_obj [of sv j q] obtain sfs where sv: "sv = JObj sfs" by (auto simp: p)
  have sd': "scalar_defined (get_path (JObj sfs) p)" using sd sv by simp
  from g have g': "gap (lookup d k) p" by simp
  show ?thesis
  proof (cases "lookup d k")
    case JUndef
    then show ?thesis using sv IH [OF False gap_empty_fields [OF False] sd']
      by (simp add: lookup_assign)
  next
    case (JObj ofs)
    then show ?thesis using sv g' IH [OF False _ sd', of ofs]
      by (simp add: lookup_assign)
  qed (use g' p in simp_all)
qed

lemma merge_fields_fill_path:
  "p \<noteq> [] \<Longrightarrow> gap (JObj d) p \<Longrightarrow> scalar_defined (get_path (JObj src) p) \<Longrightarrow>
   get_path (JObj (merge_fields d src)) p = get_path (JObj src) p"
proof (induction p arbitrary: d src)
  case Nil
  then show ?case by simp
next
  case (Cons k p)
  have step: "\<And>d sv. gap (JObj d) (k # p) \<Longrightarrow> scalar_defined (get_path sv p) \<Longrightarrow>
      get_path (JObj (merge_entry d k sv)) (k # p) = get_path sv p"
    using merge_entry_fill_path [of p _ k] Cons.IH by blast
  from Cons.prems(2,3) show ?case
  proof (induction src arbitrary: d)
    case Nil
    then show ?case by (simp add: lookup_def scalar_defined_def)
  next
    case (Cons a src)
    obtain k' sv where a: "a = (k', sv)" by (cases a)
    show ?case
    proof (cases "k' = k")
      case True
      have sv: "scalar_defined (get_path sv p)"
        using Cons.prems(2) a True by (simp add: lookup_def)
      have 1: "get_path (JObj (merge_entry d k sv)) (k # p) = get_path sv p"
        by (rule step [OF Cons.prems(1) sv])
      then have "scalar_defined (get_path (JObj (merge_entry d k sv)) (k # p))" using sv by simp
      from merge_fields_keep_path [OF _ this, of src] 1
      show ?thesis unfolding a using True by (simp add: lookup_def)
    next
      case False
      then have ne: "k \<noteq> k'" by simp
      have g: "gap (JObj (merge_entry d k' sv)) (k # p)"
        using Cons.prems(1) merge_entry_other [OF ne] by simp
      have l: "scalar_defined (get_path (JObj src) (k # p))"
        using Cons.prems(2) False a by (simp add: lookup_def)
      from Cons.IH [OF g l] show ?thesis unfolding a using False by (simp add: lookup_def)
    qed
  qed
qed

lemma merge_entry_gap:
  assumes IH: "\<And>d src. gap (JObj d) p \<Longrightarrow> absent (JObj src) p \<Longrightarrow>
                 gap (JObj (merge_fields d src)) p"
    and g: "gap (JObj d) (k # p)"
    and a: "absent sv p"
  shows "gap (JObj (merge_entry d k sv)) (k # p)"
proof (cases sv)
  case JUndef
  then show ?thesis using g by (simp add: lookup_assign)
next
  case (JObj sfs)
  with a obtain j q where p: "p = j # q" by (cases p) auto
  from g have g': "gap (lookup d k) p" by simp
  show ?thesis
  proof (cases "lookup d k")
    case JUndef
    have "gap (JObj []) p" using p by (simp add: lookup_def)
    from IH [OF this] a JObj JUndef show ?thesis by (simp add: lookup_assign)
  next
    case (JObj ofs)
    with g' IH [of ofs sfs] a \<open>sv = JObj sfs\<close> show ?thesis by (simp add: lookup_assign)
  qed (use g' p in simp_all)
qed (use a in \<open>cases p; simp\<close>)+

lemma merge_fields_gap:
  "gap (JObj d) p \<Longrightarrow> absent (JObj src) p \<Longrightarrow> gap (JObj (merge_fields d src)) p"
proof (induction p arbitrary: d src)
  case Nil
  then show ?case by simp
next
  case (Cons k p)
  have step: "\<And>d sv. gap (JObj d) (k # p) \<Longrightarrow> absent sv p \<Longrightarrow>
      gap (JObj (merge_entry d k sv)) (k # p)"
    using merge_entry_gap [of p _ k] Cons.IH by blast
  from Cons.prems have "gap (JObj d) (k # p)" "absent_fields src k p" by simp_all
  then show ?case
  proof (induction src arbitrary: d)
    case Nil
    then show ?case by simp
  next
    case (Cons a src)
    obtain k' sv where a: "a = (k', sv)" by (cases a)
    from Cons.prems(2) have r: "absent_fields src k p" and h: "k' \<noteq> k \<or> absent sv p"
      by (simp_all add: a)
    have g: "gap (JObj (merge_entry d k' sv)) (k # p)"
    proof (cases "k' = k")
      case True
      with h step [OF Cons.prems(1)] show ?thesis by simp
    next
      case False
      then have "k \<noteq> k'" by simp
      from merge_entry_other [OF this] Cons.prems(1) show ?thesis by simp
    qed
    from Cons.IH [OF g r] show ?case unfolding a by simp
  qed
qed

lemma merged_tags_unfold:
  "merged_tags ex sp =
     merge_source (merge_source [(''service'', service_value (service sp))] (tags sp)) (defaultTags ex)"
  by (simp add: merged_tags_def defaultsDeep_def)

lemma merge_source_keep_path:
  "p \<noteq> [] \<Longrightarrow> scalar_defined (get_path (JObj d) p) \<Longrightarrow>
   get_path (JObj (merge_source d src)) p = get_path (JObj d) p"
  by (cases src) (simp_all add: merge_source_def merge_fields_keep_path)

lemma merge_source_fill_path:
  assumes "p \<noteq> []" "gap (JObj d) p" "scalar_defined (get_path src p)"
  shows "get_path (JObj (merge_source d src)) p = get_path src p"
proof -
  from assms(1) obtain k q where p: "p = k # q" by (cases p) auto
  from assms(3) get_path_scalar_obj [of src k q] obtain fs where src: "src = JObj fs"
    by (auto simp: p)
  show ?thesis unfolding src using merge_fields_fill_path [OF assms(1,2), of fs] assms(3)
    by (simp add: merge_source_def src)
qed

lemma merge_source_gap:
  assumes "p \<noteq> []" "gap (JObj d) p" "absent src p"
  shows "gap (JObj (merge_source d src)) p"
proof (cases src)
  case (JObj fs)
  then show ?thesis using merge_fields_gap [OF assms(2), of fs] assms(3)
    by (simp add: merge_source_def)
qed (use assms(2) in \<open>simp_all add: merge_source_def\<close>)

lemma destination_gap:
  "p \<noteq> [] \<Longrightarrow> hd p \<noteq> ''service'' \<or> service sp = None \<Longrightarrow>
   gap (JObj [(''service'', service_value (service sp))]) p"
  by (cases p) (auto simp: lookup_def service_value_def)

text \<open>
  Claim C1, amended.  In the merge of line 168, whose result is handed to \<^verbatim>\<open>flattenTags\<close>,
  the synthesized \<^verbatim>\<open>service\<close> entry is the destination and has the highest priority, and
  the merge goes leaf by leaf.  For every path of keys that are not names of inherited
  members: a scalar of the service descriptor of the span is the merged value at that
  path under \<^verbatim>\<open>service\<close>, whatever \<^verbatim>\<open>span.tags\<close> and \<^verbatim>\<open>defaultTags\<close> hold there; at a path
  that does not begin with \<^verbatim>\<open>service\<close> (at any path when the span has no service), a scalar
  of \<^verbatim>\<open>span.tags\<close> is the merged value, and a scalar of \<^verbatim>\<open>defaultTags\<close> is the merged
  value where \<^verbatim>\<open>span.tags\<close> has no value at the path and no scalar on the way to it.  For
  \<^verbatim>\<open>span.tags = {x: 1}\<close> and \<^verbatim>\<open>defaultTags = {x: 2, y: 3}\<close> the merged tags map \<^verbatim>\<open>x\<close> to 1
  and \<^verbatim>\<open>y\<close> to 3.
\<close>

theorem merged_tags_precedence:
  "(service sp = Some svc \<and> own_path p \<and> scalar_defined (get_path (service_object svc) p) \<longrightarrow>
      get_path (JObj (merged_tags ex sp)) (''service'' # p) = get_path (service_object svc) p)
   \<and> (p \<noteq> [] \<and> own_path p \<and> scalar_defined (get_path (tags sp) p)
        \<and> (hd p \<noteq> ''service'' \<or> service sp = None) \<longrightarrow>
      get_path (JObj (merged_tags ex sp)) p = get_path (tags sp) p)
   \<and> (p \<noteq> [] \<and> own_path p \<and> scalar_defined (get_path (defaultTags ex) p) \<and> absent (tags sp) p
        \<and> (hd p \<noteq> ''service'' \<or> service sp = None) \<longrightarrow>
      get_path (JObj (merged_tags ex sp)) p = get_path (defaultTags ex) p)
   \<and> (tags sp = JObj [(''x'', JNum 1)]
        \<and> defaultTags ex = JObj [(''x'', JNum 2), (''y'', JNum 3)] \<longrightarrow>
      lookup (merged_tags ex sp) ''x'' = JNum 1 \<and> lookup (merged_tags ex sp) ''y'' = JNum 3)"
proof -
  let ?d = "[(''service'', service_value (service sp))]"
  let ?d1 = "merge_source ?d (tags sp)"
  have A: "service sp = Some svc \<and> own_path p \<and> scalar_defined (get_path (service_object svc) p) \<longrightarrow>
      get_path (JObj (merged_tags ex sp)) (''service'' # p) = get_path (service_object svc) p"
  proof
    assume a: "service sp = Some svc \<and> own_path p \<and> scalar_defined (get_path (service_object svc) p)"
    have 0: "get_path (JObj ?d) (''service'' # p) = get_path (service_object svc) p"
      using a by (simp add: lookup_def service_value_def)
    then have s0: "scalar_defined (get_path (JObj ?d) (''service'' # p))" using a by simp
    have 1: "get_path (JObj ?d1) (''service'' # p) = get_path (service_object svc) p"
      using merge_source_keep_path [OF _ s0, of "tags sp"] 0 by simp
    then have s1: "scalar_defined (get_path (JObj ?d1) (''service'' # p))" using a by simp
    show "get_path (JObj (merged_tags ex sp)) (''service'' # p) = get_path (service_object svc) p"
      unfolding merged_tags_unfold
      using merge_source_keep_path [OF _ s1, of "defaultTags ex"] 1 by simp
  qed
  have B: "p \<noteq> [] \<and> own_path p \<and> scalar_defined (get_path (tags sp) p)
        \<and> (hd p \<noteq> ''service'' \<or> service sp = None) \<longrightarrow>
      get_path (JObj (merged_tags ex sp)) p = get_path (tags sp) p"
  proof
    assume a: "p \<noteq> [] \<and> own_path p \<and> scalar_defined (get_path (tags sp) p)
        \<and> (hd p \<noteq> ''service'' \<or> service sp = None)"
    then have ne: "p \<noteq> []" and sd: "scalar_defined (get_path (tags sp) p)"
      and h: "hd p \<noteq> ''service'' \<or> service sp = None" by simp_all
    have 1: "get_path (JObj ?d1) p = get_path (tags sp) p"
      by (rule merge_source_fill_path [OF ne destination_gap [OF ne h] sd])
    then have s1: "scalar_defined (get_path (JObj ?d1) p)" using sd by simp
    show "get_path (JObj (merged_tags ex sp)) p = get_path (tags sp) p"
      unfolding merged_tags_unfold
      using merge_source_keep_path [OF ne s1, of "defaultTags ex"] 1 by simp
  qed
  have C: "p \<noteq> [] \<and> own_path p \<and> scalar_defined (get_path (defaultTags ex) p) \<and> absent (tags sp) p
        \<and> (hd p \<noteq> ''service'' \<or> service sp = None) \<longrightarrow>
      get_path (JObj (merged_tags ex sp)) p = get_path (defaultTags ex) p"
  proof
    assume a: "p \<noteq> [] \<and> own_path p \<and> scalar_defined (get_path (defaultTags ex) p)
        \<and> absent (tags sp) p \<and> (hd p \<noteq> ''service'' \<or> service sp = None)"
    then have ne: "p \<noteq> []" and sd: "scalar_defined (get_path (defaultTags ex) p)"
      and ab: "absent (tags sp) p"
      and h: "hd p \<noteq> ''service'' \<or> service sp = None" by simp_all
    have g1: "gap (JObj ?d1) p"
      by (rule merge_source_gap [OF ne destination_gap [OF ne h] ab])
    show "get_path (JObj (merged_tags ex sp)) p = get_path (defaultTags ex) p"
      unfolding merged_tags_unfold by (rule merge_source_fill_path [OF ne g1 sd])
  qed
  have D: "tags sp = JObj [(''x'', JNum 1)]
        \<and> defaultTags ex = JObj [(''x'', JNum 2), (''y'', JNum 3)] \<longrightarrow>
      lookup (merged_tags ex sp) ''x'' = JNum 1 \<and> lookup (merged_tags ex sp) ''y'' = JNum 3"
    by (cases "service sp")
       (simp_all add: merged_tags_unfold merge_source_def lookup_def service_value_def
          service_object_def has_key_def)
  from A B C D show ?thesis by (intro conjI)
qed

theorem merged_tags_precedence_witness:
  "service nested_span = Some \<lparr>svc_name = ''posts'', svc_props = []\<rparr>
   \<and> own_path [''name''] \<and> own_path [''x''] \<and> own_path [''y''] \<and> own_path [''a'', ''b'']
   \<and> own_path [''a'', ''c'']
   \<and> get_path (JObj (merged_tags nested_exporter nested_span)) [''service'', ''name'']
       = JStr ''posts''
   \<and> get_path (JObj (merged_tags nested_exporter nested_span)) [''x''] = JNum 1
   \<and> get_path (JObj (merged_tags nested_exporter nested_span)) [''a'', ''b''] = JNum 1
   \<and> absent (tags nested_span) [''y'']
   \<and> get_path (JObj (merged_tags nested_exporter nested_span)) [''y''] = JNum 3
   \<and> absent (tags nested_span) [''a'', ''c'']
   \<and> get_path (JObj (merged_tags nested_exporter nested_span)) [''a'', ''c''] = JNum 2
   \<and> lookup (merged_tags (init new_exporter (JObj [(''x'', JNum 2), (''y'', JNum 3)])) sample_span)
        ''x'' = JNum 1
   \<and> lookup (merged_tags (init new_exporter (JObj [(''x'', JNum 2), (''y'', JNum 3)])) sample_span)
        ''y'' = JNum 3"
proof -
  let ?svc = "\<lparr>svc_name = ''posts'', svc_props = []\<rparr>"
  let ?ex = "init new_exporter (JObj [(''x'', JNum 2), (''y'', JNum 3)])"
  have s: "service nested_span = Some ?svc" by (simp add: nested_span_def sample_span_def)
  have o: "own_path [''name'']" "own_path [''x'']" "own_path [''y'']" "own_path [''a'', ''b'']"
    "own_path [''a'', ''c'']"
    by (simp_all add: own_path_def object_prototype_keys_def)
  have t: "tags nested_span = JObj [(''x'', JNum 1), (''a'', JObj [(''b'', JNum 1)])]"
    by (simp add: nested_span_def)
  have d: "defaultTags nested_exporter
      = JObj [(''x'', JNum 2), (''y'', JNum 3), (''a'', JObj [(''b'', JNum 2), (''c'', JNum 2)])]"
    by (simp add: nested_exporter_def)
  have ab: "absent (tags nested_span) [''y'']" "absent (tags nested_span) [''a'', ''c'']"
    unfolding t by simp_all
  have 1: "get_path (JObj (merged_tags nested_exporter nested_span)) [''service'', ''name'']
       = JStr ''posts''"
    using merged_tags_precedence [of nested_span ?svc "[''name'']" nested_exporter] s o
    by (simp add: service_object_def lookup_def scalar_defined_def)
  have 2: "get_path (JObj (merged_tags nested_exporter nested_span)) [''x''] = JNum 1"
    using merged_tags_precedence [of nested_span ?svc "[''x'']" nested_exporter] o
    by (simp add: t lookup_def scalar_defined_def)
  have 3: "get_path (JObj (merged_tags nested_exporter nested_span)) [''a'', ''b''] = JNum 1"
    using merged_tags_precedence [of nested_span ?svc "[''a'', ''b'']" nested_exporter] o
    by (simp add: t lookup_def scalar_defined_def)
  have 4: "get_path (JObj (merged_tags nested_exporter nested_span)) [''y''] = JNum 3"
    using merged_tags_precedence [of nested_span ?svc "[''y'']" nested_exporter] o ab
    by (simp add: d lookup_def scalar_defined_def)
  have 5: "get_path (JObj (merged_tags nested_exporter nested_span)) [''a'', ''c''] = JNum 2"
    using merged_tags_precedence [of nested_span ?svc "[''a'', ''c'']" nested_exporter] o ab
    by (simp add: d lookup_def scalar_defined_def)
  have ts: "tags sample_span = JObj [(''x'', JNum 1)]" by (simp add: sample_span_def)
  have ds: "defaultTags ?ex = JObj [(''x'', JNum 2), (''y'', JNum 3)]"
    by (simp add: init_def flattenTags_def)
  have 6: "lookup (merged_tags ?ex sample_span) ''x'' = JNum 1
         \<and> lookup (merged_tags ?ex sample_span) ''y'' = JNum 3"
    using merged_tags_precedence [of sample_span ?svc "[]" ?ex] ts ds by blast
  from s o 1 2 3 ab 4 5 6 show ?thesis by blast
qed

text \<open>
  Claim C1 as stated fails: for a span of the service \<^verbatim>\<open>posts\<close> with the tags
  \<^verbatim>\<open>{service: "other"}\<close>, the merged \<^verbatim>\<open>service\<close> entry is the descriptor of the span and not
  the value of the tags.
\<close>

theorem service_tag_wins_counterexample:
  "lookup (merged_tags new_exporter (sample_span\<lparr>tags := JObj [(''service'', JStr ''other'')]\<rparr>))
     ''service'' = JObj [(''name'', JStr ''posts'')]"
  by (simp add: merged_tags_unfold merge_source_def lookup_def service_value_def
        service_object_def has_key_def sample_span_def new_exporter_def)

end
